theory Spec2Isabelle
  imports Main "HOL-Library.AList"
begin

section \<open>Values exchanged with clients\<close>

text \<open>
  Event payloads and REST bodies are JSON values. \<open>JUndefined\<close> is what JavaScript yields
  for a property that is absent. A string is represented by the bytes of its UTF-8
  encoding. A number is represented by the string JavaScript prints for it (\<open>5\<close>, \<open>-0.5\<close>,
  \<open>1e+21\<close>): different numbers print differently, except that both zeros print as \<open>0\<close>. An
  object is the list of its own properties; the first binding of a name is the property's
  value.
\<close>

datatype json =
    JUndefined
  | JNull
  | JBool bool
  | JNum string
  | JStr string
  | JArr "json list"
  | JObj "(string \<times> json) list"

text \<open>JavaScript truthiness, as used by \<open>!x\<close>, \<open>x || y\<close> and \<open>if (x)\<close>.\<close>

fun truthy :: "json \<Rightarrow> bool" where
  "truthy JUndefined = False"
| "truthy JNull = False"
| "truthy (JBool b) = b"
| "truthy (JNum d) = (d \<noteq> ''0'')"
| "truthy (JStr s) = (s \<noteq> [])"
| "truthy (JArr xs) = True"
| "truthy (JObj kvs) = True"

text \<open>
  Property read \<open>v.name\<close> for the names the handlers destructure. No primitive, no array
  and no prototype has a property of such a name, so the read yields \<open>undefined\<close> unless
  the value is an object with that own property.
\<close>

fun get_prop :: "json \<Rightarrow> string \<Rightarrow> json" where
  "get_prop (JObj kvs) k = (case map_of kvs k of Some v \<Rightarrow> v | None \<Rightarrow> JUndefined)"
| "get_prop v k = JUndefined"

text \<open>\<open>const { a, b } = v\<close> throws a TypeError exactly when \<open>v\<close> is \<open>undefined\<close> or \<open>null\<close>.\<close>

fun destructurable :: "json \<Rightarrow> bool" where
  "destructurable JUndefined = False"
| "destructurable JNull = False"
| "destructurable v = True"

fun isArray :: "json \<Rightarrow> bool" where
  "isArray (JArr xs) = True"
| "isArray v = False"

text \<open>
  The exceptions the server can meet: a TypeError of the language, and the Error that
  Socket.IO throws when asked to emit an event name it reserves.
\<close>

datatype error = TypeError | ReservedEventError

fun join_comma :: "string list \<Rightarrow> string" where
  "join_comma [] = []"
| "join_comma [x] = x"
| "join_comma (x # y # ys) = x @ CHR '','' # join_comma (y # ys)"

fun sequence :: "(error + 'a) list \<Rightarrow> error + 'a list" where
  "sequence [] = Inr []"
| "sequence (Inl e # rs) = Inl e"
| "sequence (Inr x # rs) = (case sequence rs of Inl e \<Rightarrow> Inl e | Inr xs \<Rightarrow> Inr (x # xs))"

text \<open>
  String conversion, as performed by a template literal \<open>`chat-${v}`\<close> and by a property
  key \<open>results[v]\<close>. An object is converted by its \<open>toString\<close> method: the inherited one
  yields \<open>[object Object]\<close>, while an own property \<open>toString\<close> of a JSON object is not a
  function, and then the conversion throws a TypeError (the inherited \<open>valueOf\<close> returns
  the object itself, an own \<open>valueOf\<close> is not a function either). An array is converted by
  joining the conversions of its elements, \<open>null\<close> and \<open>undefined\<close> giving the empty string.
\<close>

fun toString :: "json \<Rightarrow> error + string" where
  "toString JUndefined = Inr ''undefined''"
| "toString JNull = Inr ''null''"
| "toString (JBool b) = Inr (if b then ''true'' else ''false'')"
| "toString (JNum d) = Inr d"
| "toString (JStr s) = Inr s"
| "toString (JArr xs) =
     (case sequence (map (\<lambda>x. if x = JUndefined \<or> x = JNull then Inr [] else toString x) xs) of
        Inl e \<Rightarrow> Inl e
      | Inr ss \<Rightarrow> Inr (join_comma ss))"
| "toString (JObj kvs) =
     (if ''toString'' \<in> set (map fst kvs) then Inl TypeError else Inr ''[object Object]'')"

definition convertible :: "json \<Rightarrow> bool" where
  "convertible v = (case toString v of Inl e \<Rightarrow> False | Inr x \<Rightarrow> True)"

text \<open>
  A template literal with the substitutions \<open>vs\<close>, as in the arguments of \<open>console.log\<close>
  and \<open>console.error\<close>, is evaluated without an exception exactly when every substitution
  converts. What is logged is not part of the model; whether the log statement throws is.
\<close>

definition interpolates :: "json list \<Rightarrow> bool" where
  "interpolates vs = list_all convertible vs"

text \<open>A count (a natural number below \<open>10^21\<close>) as JavaScript prints it.\<close>

fun show_nat :: "nat \<Rightarrow> string" where
  "show_nat n =
     (if n < 10 then [char_of (48 + n)]
      else show_nat (n div 10) @ [char_of (48 + n mod 10)])"

definition num :: "nat \<Rightarrow> json" where
  "num n = JNum (show_nat n)"

section \<open>Server state\<close>

text \<open>
  A socket: its id and the identity presented in the handshake. The user id is a string
  (\<open>None\<close> when the field is absent); user ids of other types are not modelled. The role
  is any JSON value (\<open>JUndefined\<close> when absent): the handshake is not validated. The
  variables \<open>userId\<close> and \<open>role\<close> that the event handlers close over are computed from
  these once, in the connection handler.
\<close>

record socket =
  socket_id :: string
  auth_userId :: "string option"
  auth_role :: json

text \<open>\<open>socket.handshake.auth.userId || `guest-${socket.id}`\<close>\<close>

definition userId_of :: "socket \<Rightarrow> string" where
  "userId_of sock =
     (case auth_userId sock of
        Some u \<Rightarrow> if u \<noteq> [] then u else ''guest-'' @ socket_id sock
      | None \<Rightarrow> ''guest-'' @ socket_id sock)"

text \<open>\<open>socket.handshake.auth.role || "Guest"\<close>\<close>

definition role_of :: "socket \<Rightarrow> json" where
  "role_of sock = (if truthy (auth_role sock) then auth_role sock else JStr ''Guest'')"

text \<open>
  The three global \<open>Map\<close>s of the server, and the state of the transport: the connected
  sockets and the room membership kept by the Socket.IO adapter as (room, socket id) pairs.
  A \<open>Map\<close> is an association list in insertion order with one entry per key.
\<close>

record state =
  userConnections :: "(string \<times> string) list"
  userRoles :: "(string \<times> json) list"
  socketUsers :: "(string \<times> string) list"
  sockets :: "socket list"
  rooms :: "(string \<times> string) list"

definition init :: state where
  "init = \<lparr>userConnections = [], userRoles = [], socketUsers = [], sockets = [], rooms = []\<rparr>"

definition Map_get :: "(string \<times> 'v) list \<Rightarrow> string \<Rightarrow> 'v option" where
  "Map_get m k = map_of m k"

definition Map_set :: "string \<Rightarrow> 'v \<Rightarrow> (string \<times> 'v) list \<Rightarrow> (string \<times> 'v) list" where
  "Map_set k v m = AList.update k v m"

definition Map_delete :: "string \<Rightarrow> (string \<times> 'v) list \<Rightarrow> (string \<times> 'v) list" where
  "Map_delete k m = AList.delete k m"

text \<open>\<open>m.delete(m2.get(k))\<close>: when the inner lookup is \<open>undefined\<close>, no entry has that key.\<close>

fun Map_delete_opt :: "string option \<Rightarrow> (string \<times> 'v) list \<Rightarrow> (string \<times> 'v) list" where
  "Map_delete_opt None m = m"
| "Map_delete_opt (Some k) m = Map_delete k m"

text \<open>
  \<open>userConnections.get(v)\<close> for a value \<open>v\<close> received from a client. The keys of the map are
  strings, and \<open>Map\<close> compares keys without conversion, so only a string can hit an entry.
\<close>

fun lookup_user :: "state \<Rightarrow> json \<Rightarrow> string option" where
  "lookup_user s (JStr u) = Map_get (userConnections s) u"
| "lookup_user s v = None"

text \<open>
  The pattern \<open>const socketId = userConnections.get(v); if (socketId) ...\<close>: the socket id
  when the lookup is truthy.
\<close>

definition connected :: "state \<Rightarrow> json \<Rightarrow> string option" where
  "connected s v =
     (case lookup_user s v of
        Some sid \<Rightarrow> if sid \<noteq> [] then Some sid else None
      | None \<Rightarrow> None)"

subsection \<open>Rooms and emitted events\<close>

definition join :: "string \<Rightarrow> string \<Rightarrow> state \<Rightarrow> state" where
  "join sid room s = s\<lparr>rooms := List.insert (room, sid) (rooms s)\<rparr>"

definition leave :: "string \<Rightarrow> string \<Rightarrow> state \<Rightarrow> state" where
  "leave sid room s = s\<lparr>rooms := removeAll (room, sid) (rooms s)\<rparr>"

definition members :: "state \<Rightarrow> string \<Rightarrow> string list" where
  "members s room = map snd (filter (\<lambda>p. fst p = room) (rooms s))"

text \<open>
  An emitted event: where it is sent, its name and its payload; \<open>recipients\<close> gives the
  sockets that receive it. \<open>ToSocket\<close> is \<open>socket.emit\<close>, \<open>ToRoom\<close> is \<open>io.to(room).emit\<close>, \<open>ToRoomExcept\<close> is
  \<open>socket.to(room).emit\<close> (the room without the emitting socket) and \<open>ToAll\<close> is \<open>io.emit\<close>.
\<close>

datatype target =
    ToSocket string
  | ToRoom string
  | ToRoomExcept string string
  | ToAll

datatype emission = Emit target json json

fun recipients :: "state \<Rightarrow> target \<Rightarrow> string list" where
  "recipients s (ToSocket sid) = filter (\<lambda>c. c = sid) (map socket_id (sockets s))"
| "recipients s (ToRoom room) = members s room"
| "recipients s (ToRoomExcept room sid) = filter (\<lambda>c. c \<noteq> sid) (members s room)"
| "recipients s ToAll = map socket_id (sockets s)"

text \<open>
  The event names Socket.IO (version 3 and later) reserves: \<open>emit\<close> on the server, on a
  room or on a namespace throws an Error for them before anything is sent. The names the
  handlers emit themselves (\<open>call:offer\<close>, \<open>chat:message\<close>, \<open>pong\<close>, ...) are not among them;
  a name taken from a request body can be.
\<close>

definition RESERVED_EVENTS :: "string list" where
  "RESERVED_EVENTS =
     [''connect'', ''connect_error'', ''disconnect'', ''disconnecting'', ''newListener'',
      ''removeListener'']"

fun reserved :: "json \<Rightarrow> bool" where
  "reserved (JStr e) = (e \<in> set RESERVED_EVENTS)"
| "reserved v = False"

section \<open>Socket event handlers\<close>

text \<open>
  What the transport does around the handlers: a new socket is added to the connected
  sockets and joins the room named by its own id before the connection handler runs; a
  closing socket leaves all its rooms and is removed before the disconnect handler runs.
\<close>

definition open_socket :: "state \<Rightarrow> socket \<Rightarrow> state" where
  "open_socket s sock = join (socket_id sock) (socket_id sock) (s\<lparr>sockets := sockets s @ [sock]\<rparr>)"

definition close_socket :: "state \<Rightarrow> socket \<Rightarrow> state" where
  "close_socket s sock =
     s\<lparr>sockets := filter (\<lambda>k. socket_id k \<noteq> socket_id sock) (sockets s),
       rooms := filter (\<lambda>p. snd p \<noteq> socket_id sock) (rooms s)\<rparr>"

text \<open>
  The connection handler. The room name \<open>`role-${role}`\<close> is computed after the three maps
  are written; when the role does not convert, the handler throws there. The log
  statement that follows interpolates the user id, the role and the socket id, which all
  convert by then.
\<close>

definition on_connection :: "state \<Rightarrow> socket \<Rightarrow> error + state" where
  "on_connection s sock =
     (let u = userId_of sock;
          r = role_of sock;
          s1 = s\<lparr>userConnections := Map_set u (socket_id sock) (userConnections s)\<rparr>;
          s2 = s1\<lparr>socketUsers := Map_set (socket_id sock) u (socketUsers s1)\<rparr>;
          s3 = s2\<lparr>userRoles := Map_set u r (userRoles s2)\<rparr>
      in case toString r of
           Inl e \<Rightarrow> Inl e
         | Inr roleName \<Rightarrow>
             Inr (join (socket_id sock) (''user-'' @ u)
                    (join (socket_id sock) (''role-'' @ roleName) s3)))"

text \<open>
  The disconnect handler. Its log statement interpolates a string or \<open>undefined\<close>, the
  role (which converted in the connection handler) and the reason, a string: it does not
  throw. \<open>reason\<close> is only written to the log.
\<close>

definition on_disconnect :: "state \<Rightarrow> socket \<Rightarrow> string \<Rightarrow> state" where
  "on_disconnect s sock reason =
     (let disconnectedUserId = Map_get (socketUsers s) (socket_id sock);
          s1 = s\<lparr>userConnections := Map_delete_opt disconnectedUserId (userConnections s)\<rparr>;
          s2 = s1\<lparr>socketUsers := Map_delete (socket_id sock) (socketUsers s1)\<rparr>
      in s2\<lparr>userRoles := Map_delete_opt disconnectedUserId (userRoles s2)\<rparr>)"

definition connect :: "state \<Rightarrow> socket \<Rightarrow> error + state" where
  "connect s sock = on_connection (open_socket s sock) sock"

definition disconnect :: "state \<Rightarrow> socket \<Rightarrow> string \<Rightarrow> state" where
  "disconnect s sock reason = on_disconnect (close_socket s sock) sock reason"

text \<open>
  The chat and signalling handlers. \<open>now\<close> is \<open>new Date().toISOString()\<close> at the time
  of the event. A handler yields the events it emitted and then either the new state or
  the exception it threw; an exception can come after an emit. The substitutions of each
  log statement are listed in the order of the source.
\<close>

definition room_notice :: "socket \<Rightarrow> json \<Rightarrow> string \<Rightarrow> json" where
  "room_notice sock chatRoomId now =
     JObj [(''userId'', JStr (userId_of sock)), (''chatRoomId'', chatRoomId),
           (''timestamp'', JStr now)]"

definition on_chat_join_room :: "state \<Rightarrow> socket \<Rightarrow> json \<Rightarrow> string \<Rightarrow> emission list \<times> (error + state)" where
  "on_chat_join_room s sock data now =
     (if \<not> destructurable data then ([], Inl TypeError)
      else let chatRoomId = get_prop data ''chatRoomId''
           in case toString chatRoomId of
                Inl e \<Rightarrow> ([], Inl e)
              | Inr c \<Rightarrow>
                  ([Emit (ToRoomExcept (''chat-'' @ c) (socket_id sock)) (JStr ''chat:user-joined'')
                      (room_notice sock chatRoomId now)],
                   Inr (join (socket_id sock) (''chat-'' @ c) s)))"

definition on_chat_leave_room :: "state \<Rightarrow> socket \<Rightarrow> json \<Rightarrow> string \<Rightarrow> emission list \<times> (error + state)" where
  "on_chat_leave_room s sock data now =
     (if \<not> destructurable data then ([], Inl TypeError)
      else let chatRoomId = get_prop data ''chatRoomId''
           in case toString chatRoomId of
                Inl e \<Rightarrow> ([], Inl e)
              | Inr c \<Rightarrow>
                  ([Emit (ToRoomExcept (''chat-'' @ c) (socket_id sock)) (JStr ''chat:user-left'')
                      (room_notice sock chatRoomId now)],
                   Inr (leave (socket_id sock) (''chat-'' @ c) s)))"

definition on_chat_typing :: "state \<Rightarrow> socket \<Rightarrow> json \<Rightarrow> string \<Rightarrow> emission list \<times> (error + state)" where
  "on_chat_typing s sock data now =
     (if \<not> destructurable data then ([], Inl TypeError)
      else let chatRoomId = get_prop data ''chatRoomId''
           in case toString chatRoomId of
                Inl e \<Rightarrow> ([], Inl e)
              | Inr c \<Rightarrow>
                  ([Emit (ToRoomExcept (''chat-'' @ c) (socket_id sock)) (JStr ''chat:user-typing'')
                      (room_notice sock chatRoomId now)],
                   Inr s))"

definition on_chat_stop_typing :: "state \<Rightarrow> socket \<Rightarrow> json \<Rightarrow> string \<Rightarrow> emission list \<times> (error + state)" where
  "on_chat_stop_typing s sock data now =
     (if \<not> destructurable data then ([], Inl TypeError)
      else let chatRoomId = get_prop data ''chatRoomId''
           in case toString chatRoomId of
                Inl e \<Rightarrow> ([], Inl e)
              | Inr c \<Rightarrow>
                  ([Emit (ToRoomExcept (''chat-'' @ c) (socket_id sock))
                      (JStr ''chat:user-stop-typing'') (room_notice sock chatRoomId now)],
                   Inr s))"

text \<open>
  \<open>call:offer\<close>. To the sender itself: log of the user id, then the error event. To a
  connected receiver: the offer is emitted, then the log interpolates the user id, the
  receiver id and the call id. To anyone else: the log interpolates the receiver id, and
  only then is the error event emitted.
\<close>

definition on_call_offer :: "state \<Rightarrow> socket \<Rightarrow> json \<Rightarrow> string \<Rightarrow> emission list \<times> (error + state)" where
  "on_call_offer s sock data now =
     (if \<not> destructurable data then ([], Inl TypeError)
      else let callId = get_prop data ''callId'';
               receiverId = get_prop data ''receiverId'';
               offer = get_prop data ''offer''
           in if receiverId = JStr (userId_of sock)
              then ([Emit (ToSocket (socket_id sock)) (JStr ''call:error'')
                       (JObj [(''callId'', callId),
                              (''error'', JStr ''Cannot call yourself'')])],
                    Inr s)
              else (case connected s receiverId of
                      Some receiverSocketId \<Rightarrow>
                        ([Emit (ToRoom receiverSocketId) (JStr ''call:offer'')
                            (JObj [(''callId'', callId),
                                   (''callerId'', JStr (userId_of sock)),
                                   (''offer'', offer),
                                   (''timestamp'', JStr now)])],
                         if interpolates [JStr (userId_of sock), receiverId, callId]
                         then Inr s else Inl TypeError)
                    | None \<Rightarrow>
                        if interpolates [receiverId]
                        then ([Emit (ToSocket (socket_id sock)) (JStr ''call:error'')
                                 (JObj [(''callId'', callId),
                                        (''error'', JStr ''Receiver not connected'')])],
                              Inr s)
                        else ([], Inl TypeError)))"

text \<open>
  \<open>call:answer\<close> and \<open>call:ice-candidate\<close>. To the sender itself: log of the user id,
  return. To a connected target: the event is emitted, then the log interpolates the user
  id, the target id and the call id. To anyone else: the log interpolates the target id.
\<close>

definition on_call_answer :: "state \<Rightarrow> socket \<Rightarrow> json \<Rightarrow> string \<Rightarrow> emission list \<times> (error + state)" where
  "on_call_answer s sock data now =
     (if \<not> destructurable data then ([], Inl TypeError)
      else let callId = get_prop data ''callId'';
               callerId = get_prop data ''callerId'';
               answer = get_prop data ''answer''
           in if callerId = JStr (userId_of sock) then ([], Inr s)
              else (case connected s callerId of
                      Some callerSocketId \<Rightarrow>
                        ([Emit (ToRoom callerSocketId) (JStr ''call:answer'')
                            (JObj [(''callId'', callId), (''answer'', answer),
                                   (''timestamp'', JStr now)])],
                         if interpolates [JStr (userId_of sock), callerId, callId]
                         then Inr s else Inl TypeError)
                    | None \<Rightarrow>
                        ([], if interpolates [callerId] then Inr s else Inl TypeError)))"

definition on_call_ice_candidate :: "state \<Rightarrow> socket \<Rightarrow> json \<Rightarrow> string \<Rightarrow> emission list \<times> (error + state)" where
  "on_call_ice_candidate s sock data now =
     (if \<not> destructurable data then ([], Inl TypeError)
      else let callId = get_prop data ''callId'';
               targetUserId = get_prop data ''targetUserId'';
               candidate = get_prop data ''candidate''
           in if targetUserId = JStr (userId_of sock) then ([], Inr s)
              else (case connected s targetUserId of
                      Some targetSocketId \<Rightarrow>
                        ([Emit (ToRoom targetSocketId) (JStr ''call:ice-candidate'')
                            (JObj [(''callId'', callId), (''candidate'', candidate),
                                   (''timestamp'', JStr now)])],
                         if interpolates [JStr (userId_of sock), targetUserId, callId]
                         then Inr s else Inl TypeError)
                    | None \<Rightarrow>
                        ([], if interpolates [targetUserId] then Inr s else Inl TypeError)))"

definition on_ping :: "state \<Rightarrow> socket \<Rightarrow> string \<Rightarrow> emission list \<times> (error + state)" where
  "on_ping s sock now =
     ([Emit (ToSocket (socket_id sock)) (JStr ''pong'')
         (JObj [(''timestamp'', JStr now), (''userId'', JStr (userId_of sock))])],
      Inr s)"

datatype socket_event =
    ChatJoinRoom json
  | ChatLeaveRoom json
  | ChatTyping json
  | ChatStopTyping json
  | CallOffer json
  | CallAnswer json
  | CallIceCandidate json
  | Ping

fun on_event :: "state \<Rightarrow> socket \<Rightarrow> socket_event \<Rightarrow> string \<Rightarrow> emission list \<times> (error + state)" where
  "on_event s sock (ChatJoinRoom d) now = on_chat_join_room s sock d now"
| "on_event s sock (ChatLeaveRoom d) now = on_chat_leave_room s sock d now"
| "on_event s sock (ChatTyping d) now = on_chat_typing s sock d now"
| "on_event s sock (ChatStopTyping d) now = on_chat_stop_typing s sock d now"
| "on_event s sock (CallOffer d) now = on_call_offer s sock d now"
| "on_event s sock (CallAnswer d) now = on_call_answer s sock d now"
| "on_event s sock (CallIceCandidate d) now = on_call_ice_candidate s sock d now"
| "on_event s sock Ping now = on_ping s sock now"

section \<open>REST handlers\<close>

text \<open>
  A response is a status with a JSON body. \<open>InternalError\<close> is the response of the error
  middleware (status 500, \<open>{success: false, error: err.message}\<close>) after a handler threw.
  A handler yields its response and the events it emitted; events emitted before an
  exception stay emitted.
\<close>

datatype response = Json nat json | InternalError

definition bad_request :: "string \<Rightarrow> response" where
  "bad_request msg = Json 400 (JObj [(''success'', JBool False), (''error'', JStr msg)])"

definition ok :: "(string \<times> json) list \<Rightarrow> response" where
  "ok kvs = Json 200 (JObj ((''success'', JBool True) # kvs))"

definition results_json :: "(string \<times> bool) list \<Rightarrow> json" where
  "results_json results = JObj (map (\<lambda>(k, b). (k, JBool b)) results)"

text \<open>
  The assignment \<open>results[key] = b\<close> on the plain object \<open>results\<close>. The key \<open>__proto__\<close> names
  the accessor inherited from \<open>Object.prototype\<close>, and assigning a boolean through it
  stores nothing; every other key becomes (or updates) an own property.
\<close>

definition assign :: "string \<Rightarrow> bool \<Rightarrow> (string \<times> bool) list \<Rightarrow> (string \<times> bool) list" where
  "assign key b results = (if key = ''__proto__'' then results else Map_set key b results)"

text \<open>
  The loop shared by \<open>/notify/chat/message\<close> and \<open>/notify/users\<close>:
  \<open>ids.forEach((userId) => { ... io.to(socketId).emit(ev, payload); results[userId] = ...;
  deliveredCount++ ... })\<close>.
  The accumulator holds \<open>results\<close>, \<open>deliveredCount\<close> and the events emitted so far. The loop
  ends early when the emit throws (a reserved event name) or when the key \<open>userId\<close> does
  not convert.
\<close>

fun send_each :: "state \<Rightarrow> json \<Rightarrow> json \<Rightarrow> json list \<Rightarrow>
    (string \<times> bool) list \<times> nat \<times> emission list \<Rightarrow>
    (error + (string \<times> bool) list \<times> nat) \<times> emission list" where
  "send_each s ev payload [] (results, deliveredCount, out) = (Inr (results, deliveredCount), out)"
| "send_each s ev payload (u # us) (results, deliveredCount, out) =
     (case connected s u of
        Some socketId \<Rightarrow>
          if reserved ev then (Inl ReservedEventError, out)
          else (case toString u of
                  Inl e \<Rightarrow> (Inl e, out @ [Emit (ToRoom socketId) ev payload])
                | Inr key \<Rightarrow>
                    send_each s ev payload us
                      (assign key True results, Suc deliveredCount,
                       out @ [Emit (ToRoom socketId) ev payload]))
      | None \<Rightarrow>
          (case toString u of
             Inl e \<Rightarrow> (Inl e, out)
           | Inr key \<Rightarrow>
               send_each s ev payload us (assign key False results, deliveredCount, out)))"

text \<open>
  \<open>/notify/chat/message\<close>: after the loop the room name \<open>`chat-${chatRoomId}`\<close> is computed
  and the message is emitted to the room; the log interpolates two numbers and the room
  id again.
\<close>

definition notify_chat_message :: "state \<Rightarrow> json \<Rightarrow> string \<Rightarrow> response \<times> emission list" where
  "notify_chat_message s body now =
     (if \<not> destructurable body then (InternalError, [])
      else let chatRoomId = get_prop body ''chatRoomId'';
               recipientIds = get_prop body ''recipientIds'';
               messageData = get_prop body ''messageData''
           in if \<not> truthy chatRoomId \<or> \<not> truthy recipientIds \<or> \<not> truthy messageData
              then (bad_request ''chatRoomId, recipientIds, and messageData are required'', [])
              else (case recipientIds of
                      JArr ids \<Rightarrow>
                        (case send_each s (JStr ''chat:message'') messageData ids ([], 0, []) of
                           (Inl e, out) \<Rightarrow> (InternalError, out)
                         | (Inr (results, deliveredCount), out) \<Rightarrow>
                             (case toString chatRoomId of
                                Inl e \<Rightarrow> (InternalError, out)
                              | Inr c \<Rightarrow>
                                  (ok [(''deliveredCount'', num deliveredCount),
                                       (''totalRecipients'', num (length ids)),
                                       (''results'', results_json results)],
                                   out @ [Emit (ToRoom (''chat-'' @ c))
                                            (JStr ''chat:message'') messageData])))
                    | _ \<Rightarrow> (InternalError, [])))"

text \<open>
  \<open>/notify/chat/read\<close>: the room name is computed, the event emitted, and then the log
  interpolates the message id and the user id.
\<close>

definition notify_chat_read :: "state \<Rightarrow> json \<Rightarrow> string \<Rightarrow> response \<times> emission list" where
  "notify_chat_read s body now =
     (if \<not> destructurable body then (InternalError, [])
      else let chatRoomId = get_prop body ''chatRoomId'';
               uid = get_prop body ''userId'';
               messageId = get_prop body ''messageId''
           in if \<not> truthy chatRoomId \<or> \<not> truthy messageId
              then (bad_request ''chatRoomId and messageId are required'', [])
              else (case toString chatRoomId of
                      Inl e \<Rightarrow> (InternalError, [])
                    | Inr c \<Rightarrow>
                        (if interpolates [messageId, uid] then ok [] else InternalError,
                         [Emit (ToRoom (''chat-'' @ c)) (JStr ''chat:message-read'')
                            (JObj [(''chatRoomId'', chatRoomId), (''messageId'', messageId),
                                   (''readBy'', uid), (''timestamp'', JStr now)])])))"

text \<open>
  \<open>/notify/call/incoming\<close>: to a connected receiver the event is emitted, then the log
  interpolates the receiver id and the caller's name; otherwise the log interpolates the
  receiver id before the response.
\<close>

definition notify_call_incoming :: "state \<Rightarrow> json \<Rightarrow> string \<Rightarrow> response \<times> emission list" where
  "notify_call_incoming s body now =
     (if \<not> destructurable body then (InternalError, [])
      else let callId = get_prop body ''callId'';
               receiverId = get_prop body ''receiverId'';
               callerData = get_prop body ''callerData''
           in if \<not> truthy callId \<or> \<not> truthy receiverId \<or> \<not> truthy callerData
              then (bad_request ''callId, receiverId, and callerData are required'', [])
              else (case connected s receiverId of
                      Some receiverSocketId \<Rightarrow>
                        (if interpolates [receiverId, get_prop callerData ''callerName'']
                         then ok [(''delivered'', JBool True)] else InternalError,
                         [Emit (ToRoom receiverSocketId) (JStr ''call:incoming'')
                            (JObj [(''callId'', callId),
                                   (''callerId'', get_prop callerData ''callerId''),
                                   (''callerName'', get_prop callerData ''callerName''),
                                   (''callerImage'', get_prop callerData ''callerImage''),
                                   (''timestamp'', JStr now)])])
                    | None \<Rightarrow>
                        (if interpolates [receiverId]
                         then ok [(''delivered'', JBool False)] else InternalError, [])))"

text \<open>
  \<open>/notify/call/answered\<close> and \<open>/notify/call/rejected\<close> have the same body up to the name
  of the emitted event: to a connected caller the event is emitted, then the log
  interpolates the call id and the caller id; otherwise nothing is logged.
\<close>

definition notify_caller :: "string \<Rightarrow> state \<Rightarrow> json \<Rightarrow> string \<Rightarrow> response \<times> emission list" where
  "notify_caller ev s body now =
     (if \<not> destructurable body then (InternalError, [])
      else let callId = get_prop body ''callId'';
               callerId = get_prop body ''callerId''
           in if \<not> truthy callId \<or> \<not> truthy callerId
              then (bad_request ''callId and callerId are required'', [])
              else (case connected s callerId of
                      Some callerSocketId \<Rightarrow>
                        (if interpolates [callId, callerId]
                         then ok [(''delivered'', JBool True)] else InternalError,
                         [Emit (ToRoom callerSocketId) (JStr ev)
                            (JObj [(''callId'', callId), (''timestamp'', JStr now)])])
                    | None \<Rightarrow> (ok [(''delivered'', JBool False)], [])))"

definition notify_call_answered :: "state \<Rightarrow> json \<Rightarrow> string \<Rightarrow> response \<times> emission list" where
  "notify_call_answered = notify_caller ''call:answered''"

definition notify_call_rejected :: "state \<Rightarrow> json \<Rightarrow> string \<Rightarrow> response \<times> emission list" where
  "notify_call_rejected = notify_caller ''call:rejected''"

fun ended_each :: "state \<Rightarrow> json \<Rightarrow> json list \<Rightarrow> nat \<times> emission list \<Rightarrow> nat \<times> emission list" where
  "ended_each s payload [] acc = acc"
| "ended_each s payload (u # us) (deliveredCount, out) =
     (case connected s u of
        Some socketId \<Rightarrow>
          ended_each s payload us
            (Suc deliveredCount, out @ [Emit (ToRoom socketId) (JStr ''call:ended'') payload])
      | None \<Rightarrow> ended_each s payload us (deliveredCount, out))"

text \<open>\<open>/notify/call/ended\<close>: after the loop the log interpolates the call id and a number.\<close>

definition notify_call_ended :: "state \<Rightarrow> json \<Rightarrow> string \<Rightarrow> response \<times> emission list" where
  "notify_call_ended s body now =
     (if \<not> destructurable body then (InternalError, [])
      else let callId = get_prop body ''callId'';
               userIds = get_prop body ''userIds''
           in if \<not> truthy callId \<or> \<not> truthy userIds
              then (bad_request ''callId and userIds are required'', [])
              else (case userIds of
                      JArr ids \<Rightarrow>
                        (case ended_each s (JObj [(''callId'', callId), (''timestamp'', JStr now)])
                                ids (0, []) of
                           (deliveredCount, out) \<Rightarrow>
                             (if interpolates [callId]
                              then ok [(''deliveredCount'', num deliveredCount)]
                              else InternalError,
                              out))
                    | _ \<Rightarrow> (InternalError, [])))"

text \<open>
  The part of \<open>/notify/user\<close> after validation. To a connected user: the event is emitted
  (which throws for a reserved name), then the log interpolates the event name and the
  user id, and the result is \<open>delivered: true\<close>. Otherwise the log interpolates the user
  id, and the result is \<open>delivered: false\<close>.
\<close>

definition sendToUser :: "state \<Rightarrow> json \<Rightarrow> json \<Rightarrow> json \<Rightarrow> (error + bool) \<times> emission list" where
  "sendToUser s uid ev payload =
     (case connected s uid of
        Some socketId \<Rightarrow>
          if reserved ev then (Inl ReservedEventError, [])
          else (if interpolates [ev, uid] then Inr True else Inl TypeError,
                [Emit (ToRoom socketId) ev payload])
      | None \<Rightarrow> (if interpolates [uid] then Inr False else Inl TypeError, []))"

definition notify_user :: "state \<Rightarrow> json \<Rightarrow> string \<Rightarrow> response \<times> emission list" where
  "notify_user s body now =
     (if \<not> destructurable body then (InternalError, [])
      else let uid = get_prop body ''userId'';
               ev = get_prop body ''event'';
               payload = get_prop body ''data''
           in if \<not> truthy uid \<or> \<not> truthy ev
              then (bad_request ''userId and event are required'', [])
              else (case sendToUser s uid ev payload of
                      (Inl e, out) \<Rightarrow> (InternalError, out)
                    | (Inr delivered, out) \<Rightarrow> (ok [(''delivered'', JBool delivered)], out)))"

text \<open>\<open>/notify/users\<close>: after the loop the log interpolates the event name and two numbers.\<close>

definition notify_users :: "state \<Rightarrow> json \<Rightarrow> string \<Rightarrow> response \<times> emission list" where
  "notify_users s body now =
     (if \<not> destructurable body then (InternalError, [])
      else let userIds = get_prop body ''userIds'';
               ev = get_prop body ''event'';
               payload = get_prop body ''data''
           in if \<not> truthy userIds \<or> \<not> isArray userIds \<or> \<not> truthy ev
              then (bad_request ''userIds (array) and event are required'', [])
              else (case userIds of
                      JArr ids \<Rightarrow>
                        (case send_each s ev payload ids ([], 0, []) of
                           (Inl e, out) \<Rightarrow> (InternalError, out)
                         | (Inr (results, deliveredCount), out) \<Rightarrow>
                             (if interpolates [ev]
                              then ok [(''results'', results_json results),
                                       (''deliveredCount'', num deliveredCount),
                                       (''totalUsers'', num (length ids))]
                              else InternalError,
                              out))
                    | _ \<Rightarrow> (InternalError, [])))"

text \<open>
  \<open>Array.from(userRoles.entries()).filter(([_, userRole]) =>
     userRole.toLowerCase() === role.toLowerCase()).length\<close>.
  The callback runs once per entry, in the order of the map. Only a string has a
  \<open>toLowerCase\<close> method: the call throws a TypeError on the first entry whose stored role
  is not a string, and on the first entry at all when the requested \<open>role\<close> is not one.
  \<open>String.prototype.toLowerCase\<close> itself, a function of the language defined by the
  Unicode case mappings, is the parameter \<open>lc\<close>.
\<close>

fun count_matching :: "(string \<Rightarrow> string) \<Rightarrow> json \<Rightarrow> (string \<times> json) list \<Rightarrow> error + nat" where
  "count_matching lc r [] = Inr 0"
| "count_matching lc r ((u, userRole) # es) =
     (case userRole of
        JStr a \<Rightarrow>
          (case r of
             JStr b \<Rightarrow>
               (case count_matching lc r es of
                  Inl e \<Rightarrow> Inl e
                | Inr n \<Rightarrow> Inr (if lc a = lc b then Suc n else n))
           | _ \<Rightarrow> Inl TypeError)
      | _ \<Rightarrow> Inl TypeError)"

definition usersInRole :: "(string \<Rightarrow> string) \<Rightarrow> state \<Rightarrow> json \<Rightarrow> error + nat" where
  "usersInRole lc s r = count_matching lc r (userRoles s)"

text \<open>
  \<open>/notify/role\<close>: the count, then the room name \<open>`role-${role}`\<close>, then the emit (which
  throws for a reserved name), then the log, which interpolates the event name, the role
  and the count.
\<close>

definition notify_role :: "(string \<Rightarrow> string) \<Rightarrow> state \<Rightarrow> json \<Rightarrow> string \<Rightarrow> response \<times> emission list" where
  "notify_role lc s body now =
     (if \<not> destructurable body then (InternalError, [])
      else let r = get_prop body ''role'';
               ev = get_prop body ''event'';
               payload = get_prop body ''data''
           in if \<not> truthy r \<or> \<not> truthy ev
              then (bad_request ''role and event are required'', [])
              else (case usersInRole lc s r of
                      Inl e \<Rightarrow> (InternalError, [])
                    | Inr n \<Rightarrow>
                        (case toString r of
                           Inl e \<Rightarrow> (InternalError, [])
                         | Inr roleName \<Rightarrow>
                             if reserved ev then (InternalError, [])
                             else (if interpolates [ev, r]
                                   then ok [(''usersCount'', num n)] else InternalError,
                                   [Emit (ToRoom (''role-'' @ roleName)) ev payload]))))"

text \<open>\<open>/notify/all\<close>: the emit, then the log, which interpolates the event name and a number.\<close>

definition notify_all :: "state \<Rightarrow> json \<Rightarrow> string \<Rightarrow> response \<times> emission list" where
  "notify_all s body now =
     (if \<not> destructurable body then (InternalError, [])
      else let ev = get_prop body ''event'';
               payload = get_prop body ''data''
           in if \<not> truthy ev
              then (bad_request ''event is required'', [])
              else if reserved ev then (InternalError, [])
              else (if interpolates [ev]
                    then ok [(''usersCount'', num (length (userConnections s)))]
                    else InternalError,
                    [Emit ToAll ev payload]))"

datatype endpoint =
    NotifyChatMessage
  | NotifyChatRead
  | NotifyCallIncoming
  | NotifyCallAnswered
  | NotifyCallEnded
  | NotifyCallRejected
  | NotifyUser
  | NotifyUsers
  | NotifyRole
  | NotifyAll

fun route :: "(string \<Rightarrow> string) \<Rightarrow> endpoint \<Rightarrow> state \<Rightarrow> json \<Rightarrow> string \<Rightarrow> response \<times> emission list" where
  "route lc NotifyChatMessage = notify_chat_message"
| "route lc NotifyChatRead = notify_chat_read"
| "route lc NotifyCallIncoming = notify_call_incoming"
| "route lc NotifyCallAnswered = notify_call_answered"
| "route lc NotifyCallEnded = notify_call_ended"
| "route lc NotifyCallRejected = notify_call_rejected"
| "route lc NotifyUser = notify_user"
| "route lc NotifyUsers = notify_users"
| "route lc NotifyRole = notify_role lc"
| "route lc NotifyAll = notify_all"

text \<open>
  A POST request as a step of the server: the state after the request, the response and
  the events emitted. No REST handler assigns to a map or touches a room.
\<close>

definition post :: "(string \<Rightarrow> string) \<Rightarrow> endpoint \<Rightarrow> state \<Rightarrow> json \<Rightarrow> string \<Rightarrow> state \<times> response \<times> emission list" where
  "post lc ep s body now = (case route lc ep s body now of (res, out) \<Rightarrow> (s, res, out))"

text \<open>The fields each handler checks before doing anything else.\<close>

fun required :: "endpoint \<Rightarrow> string list" where
  "required NotifyChatMessage = [''chatRoomId'', ''recipientIds'', ''messageData'']"
| "required NotifyChatRead = [''chatRoomId'', ''messageId'']"
| "required NotifyCallIncoming = [''callId'', ''receiverId'', ''callerData'']"
| "required NotifyCallAnswered = [''callId'', ''callerId'']"
| "required NotifyCallEnded = [''callId'', ''userIds'']"
| "required NotifyCallRejected = [''callId'', ''callerId'']"
| "required NotifyUser = [''userId'', ''event'']"
| "required NotifyUsers = [''userIds'', ''event'']"
| "required NotifyRole = [''role'', ''event'']"
| "required NotifyAll = [''event'']"

text \<open>
  Two notions used to state what the handlers compute. A stored role equals the string
  \<open>r\<close> under case-insensitive comparison when it is a string and lower-casing it gives
  the same as lower-casing \<open>r\<close>. The property key of a value is the string it converts to
  (\<open>key_of\<close> is used for values that convert; for the others it is the empty string).
\<close>

fun isString :: "json \<Rightarrow> bool" where
  "isString (JStr a) = True"
| "isString v = False"

fun same_ignoring_case :: "(string \<Rightarrow> string) \<Rightarrow> string \<Rightarrow> json \<Rightarrow> bool" where
  "same_ignoring_case lc r (JStr a) = (lc a = lc r)"
| "same_ignoring_case lc r v = False"


section \<open>Reachable states\<close>

text \<open>
  Socket ids are generated by the transport: a new socket's id is not empty, differs from
  the id of every connected socket, and is not a room name built by the handlers
  (\<open>role-...\<close>, \<open>user-...\<close>, \<open>chat-...\<close>).
\<close>

definition fresh_socket :: "state \<Rightarrow> socket \<Rightarrow> bool" where
  "fresh_socket s sock =
     (socket_id sock \<noteq> [] \<and>
      socket_id sock \<notin> set (map socket_id (sockets s)) \<and>
      take 5 (socket_id sock) \<notin> {''role-'', ''user-'', ''chat-''})"

text \<open>
  The server handles one event at a time, each to completion. An exception in a socket
  handler is not caught and ends the process, so only completed handlers lead to a
  further state; an exception in a REST handler is caught by the error middleware.
\<close>

inductive reachable :: "state \<Rightarrow> bool" where
  r_init: "reachable init"
| r_connect: "reachable s \<Longrightarrow> fresh_socket s sock \<Longrightarrow> connect s sock = Inr s' \<Longrightarrow> reachable s'"
| r_event: "reachable s \<Longrightarrow> sock \<in> set (sockets s) \<Longrightarrow> on_event s sock e now = (out, Inr s')
     \<Longrightarrow> reachable s'"
| r_disconnect: "reachable s \<Longrightarrow> sock \<in> set (sockets s) \<Longrightarrow> reachable (disconnect s sock reason)"
| r_post: "reachable s \<Longrightarrow> post lc ep s body now = (s', res, out) \<Longrightarrow> reachable s'"

text \<open>
  \<open>run_keeping a s s'\<close>: the server runs from \<open>s\<close> to \<open>s'\<close> by any of the steps above, and the
  socket with id \<open>a\<close> does not disconnect on the way.
\<close>

inductive run_keeping :: "string \<Rightarrow> state \<Rightarrow> state \<Rightarrow> bool" for a :: string and s :: state where
  k_start: "run_keeping a s s"
| k_connect: "run_keeping a s s1 \<Longrightarrow> fresh_socket s1 sock \<Longrightarrow> connect s1 sock = Inr s2
     \<Longrightarrow> run_keeping a s s2"
| k_event: "run_keeping a s s1 \<Longrightarrow> sock \<in> set (sockets s1) \<Longrightarrow>
     on_event s1 sock e now = (out, Inr s2) \<Longrightarrow> run_keeping a s s2"
| k_disconnect: "run_keeping a s s1 \<Longrightarrow> sock \<in> set (sockets s1) \<Longrightarrow> socket_id sock \<noteq> a
     \<Longrightarrow> run_keeping a s (disconnect s1 sock reason)"
| k_post: "run_keeping a s s1 \<Longrightarrow> post lc ep s1 body now = (s2, res, out) \<Longrightarrow> run_keeping a s s2"

text \<open>
  The registry invariant: every forward entry has its reverse entry, every reverse entry
  belongs to a connected socket, and every connected socket has the reverse entry written
  by its connection handler. Each map has one entry per key.
\<close>

definition registry_inv :: "state \<Rightarrow> bool" where
  "registry_inv s \<longleftrightarrow>
     (\<forall>u c. Map_get (userConnections s) u = Some c \<longrightarrow> Map_get (socketUsers s) c = Some u) \<and>
     (\<forall>c u. Map_get (socketUsers s) c = Some u \<longrightarrow> c \<in> set (map socket_id (sockets s))) \<and>
     (\<forall>k \<in> set (sockets s). Map_get (socketUsers s) (socket_id k) = Some (userId_of k)) \<and>
     distinct (map fst (userConnections s)) \<and> distinct (map fst (userRoles s)) \<and>
     distinct (map fst (socketUsers s))"

text \<open>
  The transport invariant: socket ids are well formed and pairwise different, only connected
  sockets are in rooms, a room is a socket's own room or one named by a handler, and every
  connected socket is in its own room.
\<close>

definition transport_inv :: "state \<Rightarrow> bool" where
  "transport_inv s \<longleftrightarrow>
     (\<forall>k \<in> set (sockets s).
         socket_id k \<noteq> [] \<and> take 5 (socket_id k) \<notin> {''role-'', ''user-'', ''chat-''}) \<and>
     (\<forall>p \<in> set (rooms s). snd p \<in> set (map socket_id (sockets s)) \<and>
         (fst p = snd p \<or> take 5 (fst p) \<in> {''role-'', ''user-'', ''chat-''})) \<and>
     (\<forall>k \<in> set (sockets s). (socket_id k, socket_id k) \<in> set (rooms s)) \<and>
     distinct (rooms s) \<and> distinct (map socket_id (sockets s))"

section \<open>Example sockets and states\<close>

text \<open>
  Two sockets presenting the same user id \<open>u1\<close> and the role \<open>Driver\<close>, and a socket of a
  second user \<open>u2\<close> presenting no role.
\<close>

definition sock_A :: socket where
  "sock_A = \<lparr>socket_id = ''sA'', auth_userId = Some ''u1'', auth_role = JStr ''Driver''\<rparr>"

definition sock_B :: socket where
  "sock_B = \<lparr>socket_id = ''sB'', auth_userId = Some ''u1'', auth_role = JStr ''Driver''\<rparr>"

definition sock_C :: socket where
  "sock_C = \<lparr>socket_id = ''sC'', auth_userId = Some ''u2'', auth_role = JUndefined\<rparr>"

text \<open>The state after \<open>sock_A\<close> connected to the initial state.\<close>

definition state_A :: state where
  "state_A =
     \<lparr>userConnections = [(''u1'', ''sA'')],
      userRoles = [(''u1'', JStr ''Driver'')],
      socketUsers = [(''sA'', ''u1'')],
      sockets = [sock_A],
      rooms = [(''user-u1'', ''sA''), (''role-Driver'', ''sA''), (''sA'', ''sA'')]\<rparr>"

text \<open>The state after \<open>sock_B\<close> connected to \<open>state_A\<close>.\<close>

definition state_AB :: state where
  "state_AB =
     \<lparr>userConnections = [(''u1'', ''sB'')],
      userRoles = [(''u1'', JStr ''Driver'')],
      socketUsers = [(''sA'', ''u1''), (''sB'', ''u1'')],
      sockets = [sock_A, sock_B],
      rooms = [(''user-u1'', ''sB''), (''role-Driver'', ''sB''), (''sB'', ''sB''),
               (''user-u1'', ''sA''), (''role-Driver'', ''sA''), (''sA'', ''sA'')]\<rparr>"

text \<open>The state after \<open>sock_C\<close> connected to \<open>state_A\<close>.\<close>

definition state_AC :: state where
  "state_AC =
     \<lparr>userConnections = [(''u1'', ''sA''), (''u2'', ''sC'')],
      userRoles = [(''u1'', JStr ''Driver''), (''u2'', JStr ''Guest'')],
      socketUsers = [(''sA'', ''u1''), (''sC'', ''u2'')],
      sockets = [sock_A, sock_C],
      rooms = [(''user-u2'', ''sC''), (''role-Guest'', ''sC''), (''sC'', ''sC''),
               (''user-u1'', ''sA''), (''role-Driver'', ''sA''), (''sA'', ''sA'')]\<rparr>"

text \<open>
  A socket whose handshake presents the number 5 as its role, and the state after it
  connected to the initial state.
\<close>

definition sock_N :: socket where
  "sock_N = \<lparr>socket_id = ''sN'', auth_userId = Some ''u5'', auth_role = JNum ''5''\<rparr>"

definition state_N :: state where
  "state_N =
     \<lparr>userConnections = [(''u5'', ''sN'')],
      userRoles = [(''u5'', JNum ''5'')],
      socketUsers = [(''sN'', ''u5'')],
      sockets = [sock_N],
      rooms = [(''user-u5'', ''sN''), (''role-5'', ''sN''), (''sN'', ''sN'')]\<rparr>"

text \<open>
  A socket whose user id is the string \<open>__proto__\<close>, and the state after it connected to
  the initial state.
\<close>

definition sock_P :: socket where
  "sock_P = \<lparr>socket_id = ''sP'', auth_userId = Some ''__proto__'', auth_role = JUndefined\<rparr>"

definition state_P :: state where
  "state_P =
     \<lparr>userConnections = [(''__proto__'', ''sP'')],
      userRoles = [(''__proto__'', JStr ''Guest'')],
      socketUsers = [(''sP'', ''__proto__'')],
      sockets = [sock_P],
      rooms = [(''user-__proto__'', ''sP''), (''role-Guest'', ''sP''), (''sP'', ''sP'')]\<rparr>"

text \<open>
  A lower-casing function for the examples, which use roles of ASCII characters only: on
  such strings it agrees with \<open>String.prototype.toLowerCase\<close>. It stands for the parameter
  \<open>lc\<close> there; no handler is defined with it.
\<close>

definition lower_char :: "char \<Rightarrow> char" where
  "lower_char c =
     (let n = (of_char c :: nat) in if 65 \<le> n \<and> n \<le> 90 then char_of (n + 32) else c)"

definition lower_ascii :: "string \<Rightarrow> string" where
  "lower_ascii s = map lower_char s"

section \<open>Invariants of the reachable states\<close>

lemma Map_get_set [simp]: "Map_get (Map_set k v m) k' = (if k' = k then Some v else Map_get m k')"
  by (simp add: Map_get_def Map_set_def update_conv')

lemma Map_get_delete [simp]: "Map_get (Map_delete k m) k' = (if k' = k then None else Map_get m k')"
  by (simp add: Map_get_def Map_delete_def delete_conv')

lemma Map_get_delete_opt [simp]:
  "Map_get (Map_delete_opt d m) k' = (if d = Some k' then None else Map_get m k')"
  by (cases d) auto

lemma distinct_Map_set [simp]: "distinct (map fst m) \<Longrightarrow> distinct (map fst (Map_set k v m))"
  by (simp add: Map_set_def distinct_update)

lemma distinct_Map_delete [simp]: "distinct (map fst m) \<Longrightarrow> distinct (map fst (Map_delete k m))"
  by (simp add: Map_delete_def distinct_delete)

lemma distinct_Map_delete_opt [simp]: "distinct (map fst m) \<Longrightarrow> distinct (map fst (Map_delete_opt d m))"
  by (cases d) simp_all

lemmas example_defs =
  connect_def on_connection_def open_socket_def join_def Let_def Map_set_def Map_get_def
  Map_delete_def disconnect_def on_disconnect_def close_socket_def init_def sock_A_def
  sock_B_def sock_C_def sock_N_def sock_P_def state_A_def state_AB_def state_AC_def
  state_N_def state_P_def userId_of_def role_of_def fresh_socket_def

lemma connect_init_A: "connect init sock_A = Inr state_A"
  by (simp add: example_defs)

lemma connect_A_B: "connect state_A sock_B = Inr state_AB"
  by (simp add: example_defs)


lemma connect_init_N: "connect init sock_N = Inr state_N"
  by (simp add: example_defs)


lemma reachable_state_A: "reachable state_A"
  by (rule r_connect [OF r_init _ connect_init_A]) (simp add: example_defs)

lemma reachable_state_AB: "reachable state_AB"
  by (rule r_connect [OF reachable_state_A _ connect_A_B]) (simp add: example_defs)


text \<open>The state a completed connection handler leaves.\<close>

lemma connect_Inr:
  assumes "connect s k = Inr s'"
  shows "\<exists>roleName. toString (role_of k) = Inr roleName \<and>
     userConnections s' = Map_set (userId_of k) (socket_id k) (userConnections s) \<and>
     socketUsers s' = Map_set (socket_id k) (userId_of k) (socketUsers s) \<and>
     userRoles s' = Map_set (userId_of k) (role_of k) (userRoles s) \<and>
     sockets s' = sockets s @ [k] \<and>
     rooms s' = List.insert (''user-'' @ userId_of k, socket_id k)
                  (List.insert (''role-'' @ roleName, socket_id k)
                     (List.insert (socket_id k, socket_id k) (rooms s)))"
  using assms
  by (auto simp: connect_def on_connection_def open_socket_def join_def Let_def
           split: sum.splits)

lemma connect_maps:
  assumes "connect s k = Inr s'"
  shows "Map_get (userConnections s') u =
           (if u = userId_of k then Some (socket_id k) else Map_get (userConnections s) u)"
    and "Map_get (socketUsers s') c =
           (if c = socket_id k then Some (userId_of k) else Map_get (socketUsers s) c)"
    and "Map_get (userRoles s') u =
           (if u = userId_of k then Some (role_of k) else Map_get (userRoles s) u)"
  using connect_Inr [OF assms] by auto

lemma connect_sockets: "connect s k = Inr s' \<Longrightarrow> sockets s' = sockets s @ [k]"
  using connect_Inr by blast

lemma connect_rooms:
  assumes "connect s k = Inr s'"
  shows "\<exists>roleName. set (rooms s') =
     set (rooms s) \<union> {(socket_id k, socket_id k), (''role-'' @ roleName, socket_id k),
                       (''user-'' @ userId_of k, socket_id k)}"
  using connect_Inr [OF assms] by auto

lemma registry_inv_init: "registry_inv init"
  by (simp add: registry_inv_def init_def Map_get_def)

lemma transport_inv_init: "transport_inv init"
  by (simp add: transport_inv_def init_def)

lemma registry_inv_connect:
  assumes "registry_inv s" "fresh_socket s sock" "connect s sock = Inr s'"
  shows "registry_inv s'"
proof -
  note m = connect_maps [OF assms(3)]
  note so = connect_sockets [OF assms(3)]
  from assms(2) have "socket_id sock \<notin> socket_id ` set (sockets s)"
    unfolding fresh_socket_def by simp
  then have fresh: "\<And>k. k \<in> set (sockets s) \<Longrightarrow> socket_id k \<noteq> socket_id sock"
    by (metis imageI)
  from assms(1) have
    f: "\<And>u c. Map_get (userConnections s) u = Some c \<Longrightarrow> Map_get (socketUsers s) c = Some u" and
    r: "\<And>c u. Map_get (socketUsers s) c = Some u \<Longrightarrow> c \<in> set (map socket_id (sockets s))" and
    l: "\<And>k. k \<in> set (sockets s) \<Longrightarrow> Map_get (socketUsers s) (socket_id k) = Some (userId_of k)" and
    d: "distinct (map fst (userConnections s))" "distinct (map fst (userRoles s))"
       "distinct (map fst (socketUsers s))"
    unfolding registry_inv_def by blast+
  have 1: "Map_get (socketUsers s') c = Some u" if h: "Map_get (userConnections s') u = Some c" for u c
  proof (cases "u = userId_of sock")
    case True
    with h show ?thesis by (simp add: m)
  next
    case False
    with h have uc: "Map_get (userConnections s) u = Some c" by (simp add: m)
    from r [OF f [OF uc]] fresh have "c \<noteq> socket_id sock" by auto
    with f [OF uc] show ?thesis by (simp add: m)
  qed
  have 2: "c \<in> set (map socket_id (sockets s'))" if h: "Map_get (socketUsers s') c = Some u" for u c
  proof (cases "c = socket_id sock")
    case True
    then show ?thesis by (simp add: so)
  next
    case False
    with h have "Map_get (socketUsers s) c = Some u" by (simp add: m)
    from r [OF this] show ?thesis by (simp add: so)
  qed
  have 3: "Map_get (socketUsers s') (socket_id k) = Some (userId_of k)" if h: "k \<in> set (sockets s')" for k
  proof (cases "k = sock")
    case True
    then show ?thesis by (simp add: m)
  next
    case False
    with h have k: "k \<in> set (sockets s)" by (simp add: so)
    with fresh l show ?thesis by (simp add: m)
  qed
  from connect_Inr [OF assms(3)] d have 4: "distinct (map fst (userConnections s'))"
    "distinct (map fst (userRoles s'))" "distinct (map fst (socketUsers s'))"
    by auto
  from 1 2 3 4 show ?thesis unfolding registry_inv_def by blast
qed

lemma transport_inv_connect:
  assumes "transport_inv s" "fresh_socket s sock" "connect s sock = Inr s'"
  shows "transport_inv s'"
proof -
  from connect_Inr [OF assms(3)] obtain roleName where
    so: "sockets s' = sockets s @ [sock]" and
    ro: "rooms s' = List.insert (''user-'' @ userId_of sock, socket_id sock)
                  (List.insert (''role-'' @ roleName, socket_id sock)
                     (List.insert (socket_id sock, socket_id sock) (rooms s)))"
    by blast
  from assms(1,2) show ?thesis
    unfolding transport_inv_def fresh_socket_def so ro by auto
qed

lemma registry_inv_disconnect:
  assumes "registry_inv s" "transport_inv s" "sock \<in> set (sockets s)"
  shows "registry_inv (disconnect s sock reason)"
  using assms
  unfolding registry_inv_def transport_inv_def disconnect_def on_disconnect_def close_socket_def Let_def
  by (auto)

lemma transport_inv_disconnect:
  assumes "transport_inv s"
  shows "transport_inv (disconnect s sock reason)"
  using assms
  unfolding transport_inv_def disconnect_def on_disconnect_def close_socket_def Let_def
  by (auto simp: distinct_map_filter)

lemma on_event_state:
  assumes "on_event s sock e now = (out, Inr s')"
  shows "s' = s \<or>
         (\<exists>x. s' = s\<lparr>rooms := List.insert (''chat-'' @ x, socket_id sock) (rooms s)\<rparr>) \<or>
         (\<exists>x. s' = s\<lparr>rooms := removeAll (''chat-'' @ x, socket_id sock) (rooms s)\<rparr>)"
  using assms
  by (cases e)
     (auto simp: on_chat_join_room_def on_chat_leave_room_def on_chat_typing_def
        on_chat_stop_typing_def on_call_offer_def on_call_answer_def on_call_ice_candidate_def
        on_ping_def join_def leave_def Let_def split: if_splits option.splits sum.splits)

lemma on_event_registry:
  assumes "on_event s sock e now = (out, Inr s')"
  shows "userConnections s' = userConnections s \<and> socketUsers s' = socketUsers s \<and>
         userRoles s' = userRoles s \<and> sockets s' = sockets s"
  using on_event_state [OF assms] by auto

lemma registry_inv_event:
  assumes "registry_inv s" "on_event s sock e now = (out, Inr s')"
  shows "registry_inv s'"
  using assms(1) on_event_registry [OF assms(2)] by (simp add: registry_inv_def)

lemma chat_room_not_socket:
  assumes "transport_inv s" "k \<in> set (sockets s)"
  shows "socket_id k \<noteq> ''chat-'' @ x"
proof
  assume "socket_id k = ''chat-'' @ x"
  then have "take 5 (socket_id k) = ''chat-''" by simp
  with assms show False by (simp add: transport_inv_def)
qed

lemma transport_inv_rooms_insert:
  assumes "transport_inv s" "sock \<in> set (sockets s)"
  shows "transport_inv (s\<lparr>rooms := List.insert (''chat-'' @ x, socket_id sock) (rooms s)\<rparr>)"
  using assms by (auto simp: transport_inv_def)

lemma transport_inv_rooms_remove:
  assumes "transport_inv s" "sock \<in> set (sockets s)"
  shows "transport_inv (s\<lparr>rooms := removeAll (''chat-'' @ x, socket_id sock) (rooms s)\<rparr>)"
proof -
  have keep: "(socket_id k, socket_id k) \<in> set (removeAll (''chat-'' @ x, socket_id sock) (rooms s))"
    if "k \<in> set (sockets s)" for k
  proof -
    have "(socket_id k, socket_id k) \<in> set (rooms s)"
      using assms(1) that by (simp add: transport_inv_def)
    moreover have "(socket_id k, socket_id k) \<noteq> (''chat-'' @ x, socket_id sock)"
      using chat_room_not_socket [OF assms(1) that] by simp
    ultimately show ?thesis by simp
  qed
  have sub: "set (removeAll (''chat-'' @ x, socket_id sock) (rooms s)) \<subseteq> set (rooms s)"
    by auto
  show ?thesis
    unfolding transport_inv_def
  proof (intro conjI)
    show "\<forall>k\<in>set (sockets (s\<lparr>rooms := removeAll (''chat-'' @ x, socket_id sock) (rooms s)\<rparr>)).
       socket_id k \<noteq> [] \<and> take 5 (socket_id k) \<notin> {''role-'', ''user-'', ''chat-''}"
      using assms(1) by (simp add: transport_inv_def)
    show "\<forall>p\<in>set (rooms (s\<lparr>rooms := removeAll (''chat-'' @ x, socket_id sock) (rooms s)\<rparr>)).
       snd p \<in> set (map socket_id (sockets (s\<lparr>rooms := removeAll (''chat-'' @ x, socket_id sock) (rooms s)\<rparr>))) \<and>
       (fst p = snd p \<or> take 5 (fst p) \<in> {''role-'', ''user-'', ''chat-''})"
      using assms(1) sub unfolding transport_inv_def by (simp del: set_removeAll) blast
    show "\<forall>k\<in>set (sockets (s\<lparr>rooms := removeAll (''chat-'' @ x, socket_id sock) (rooms s)\<rparr>)).
       (socket_id k, socket_id k) \<in> set (rooms (s\<lparr>rooms := removeAll (''chat-'' @ x, socket_id sock) (rooms s)\<rparr>))"
      using keep by simp
    show "distinct (rooms (s\<lparr>rooms := removeAll (''chat-'' @ x, socket_id sock) (rooms s)\<rparr>))"
      using assms(1) by (simp add: transport_inv_def distinct_removeAll)
    show "distinct (map socket_id (sockets (s\<lparr>rooms := removeAll (''chat-'' @ x, socket_id sock) (rooms s)\<rparr>)))"
      using assms(1) by (simp add: transport_inv_def)
  qed
qed

lemma transport_inv_event:
  assumes "transport_inv s" "sock \<in> set (sockets s)" "on_event s sock e now = (out, Inr s')"
  shows "transport_inv s'"
  using on_event_state [OF assms(3)] transport_inv_rooms_insert [OF assms(1,2)]
    transport_inv_rooms_remove [OF assms(1,2)] assms(1)
  by auto

lemma post_state: "post lc ep s body now = (s', res, out) \<Longrightarrow> s' = s"
  by (auto simp: post_def split: prod.splits)

lemma reachable_inv: "reachable s \<Longrightarrow> registry_inv s \<and> transport_inv s"
proof (induction rule: reachable.induct)
  case r_init
  show ?case by (simp add: registry_inv_init transport_inv_init)
next
  case (r_connect s sock s')
  then show ?case by (blast intro: registry_inv_connect transport_inv_connect)
next
  case (r_event s sock e now out s')
  then show ?case by (blast intro: registry_inv_event transport_inv_event)
next
  case (r_disconnect s sock reason)
  then show ?case by (simp add: registry_inv_disconnect transport_inv_disconnect)
next
  case (r_post s lc ep body now s' res out)
  then show ?case by (auto dest: post_state)
qed

lemma userId_of_nonempty [simp]: "userId_of k \<noteq> []"
  by (simp add: userId_of_def split: option.splits)

lemma disconnect_maps:
  "Map_get (userConnections (disconnect s k reason)) u =
     (if Map_get (socketUsers s) (socket_id k) = Some u then None
      else Map_get (userConnections s) u)"
  "Map_get (socketUsers (disconnect s k reason)) c =
     (if c = socket_id k then None else Map_get (socketUsers s) c)"
  "Map_get (userRoles (disconnect s k reason)) u =
     (if Map_get (socketUsers s) (socket_id k) = Some u then None
      else Map_get (userRoles s) u)"
  by (simp_all add: disconnect_def on_disconnect_def close_socket_def Let_def)

lemma disconnect_sockets:
  "sockets (disconnect s k reason) = filter (\<lambda>x. socket_id x \<noteq> socket_id k) (sockets s)"
  by (simp add: disconnect_def on_disconnect_def close_socket_def Let_def)

lemma disconnect_rooms:
  "rooms (disconnect s k reason) = filter (\<lambda>p. snd p \<noteq> socket_id k) (rooms s)"
  by (simp add: disconnect_def on_disconnect_def close_socket_def Let_def)

lemma convertible_JStr [simp]: "convertible (JStr x)"
  by (simp add: convertible_def)

lemma sendToUser_absent:
  "lookup_user s uid = None \<Longrightarrow> convertible uid \<Longrightarrow> sendToUser s uid ev payload = (Inr False, [])"
  by (simp add: sendToUser_def connected_def interpolates_def)

lemma notify_user_absent:
  assumes "lookup_user s (get_prop body ''userId'') = None" "destructurable body"
    "truthy (get_prop body ''userId'')" "truthy (get_prop body ''event'')"
    "convertible (get_prop body ''userId'')"
  shows "notify_user s body now = (ok [(''delivered'', JBool False)], [])"
  using assms by (simp add: notify_user_def Let_def sendToUser_absent)

lemma lookup_user_Some: "lookup_user s v = Some c \<Longrightarrow> \<exists>u. v = JStr u \<and> Map_get (userConnections s) u = Some c"
  by (cases v) simp_all

lemma reachable_lookup:
  assumes "reachable s" "lookup_user s v = Some c"
  shows "\<exists>k \<in> set (sockets s). socket_id k = c \<and> v = JStr (userId_of k)"
proof -
  from lookup_user_Some [OF assms(2)] obtain u
    where u: "v = JStr u" "Map_get (userConnections s) u = Some c" by blast
  from reachable_inv [OF assms(1)] have r: "registry_inv s" by simp
  from r u(2) have su: "Map_get (socketUsers s) c = Some u" unfolding registry_inv_def by blast
  with r have "c \<in> set (map socket_id (sockets s))" unfolding registry_inv_def by blast
  then obtain k where k: "k \<in> set (sockets s)" "socket_id k = c" by auto
  with r have "Map_get (socketUsers s) c = Some (userId_of k)" unfolding registry_inv_def by blast
  with su k u show ?thesis by auto
qed

lemma reachable_connected:
  assumes "reachable s"
  shows "connected s v = lookup_user s v"
proof (cases "lookup_user s v")
  case None
  then show ?thesis by (simp add: connected_def)
next
  case (Some c)
  from reachable_lookup [OF assms Some] obtain k where "k \<in> set (sockets s)" "socket_id k = c"
    by blast
  moreover from reachable_inv [OF assms] have "transport_inv s" by simp
  ultimately have "c \<noteq> []" unfolding transport_inv_def by blast
  with Some show ?thesis by (simp add: connected_def)
qed

text \<open>
  The role of every connected socket converts: its connection handler computed the room
  name from it. So the log statement of the disconnect handler, which interpolates the
  role, does not throw for a connected socket.
\<close>

lemma connected_role_converts:
  "reachable s \<Longrightarrow> \<forall>k \<in> set (sockets s). convertible (role_of k)"
proof (induction rule: reachable.induct)
  case r_init
  show ?case by (simp add: init_def)
next
  case (r_connect s sock s')
  from connect_Inr [OF r_connect.hyps(3)] obtain roleName
    where "toString (role_of sock) = Inr roleName" "sockets s' = sockets s @ [sock]" by blast
  with r_connect.IH show ?case by (auto simp: convertible_def)
next
  case (r_event s sock e now out s')
  with on_event_registry [OF r_event.hyps(3)] show ?case by simp
next
  case (r_disconnect s sock reason)
  then show ?case by (simp add: disconnect_sockets)
next
  case (r_post s lc ep body now s' res out)
  with post_state [OF r_post.hyps(2)] show ?case by simp
qed

section \<open>Registration and the two indices\<close>

text \<open>
  Counterexample to claim C3 as stated (the two indices correspond exactly in every
  reachable state): after user \<open>u1\<close> connects with socket \<open>sA\<close> and then with socket \<open>sB\<close>,
  the reverse index still maps \<open>sA\<close> to \<open>u1\<close> while the forward index maps \<open>u1\<close> to \<open>sB\<close>.
\<close>

theorem indices_correspond_counterexample:
  "connect init sock_A = Inr state_A \<and> connect state_A sock_B = Inr state_AB \<and>
   reachable state_AB \<and>
   \<not> (Map_get (socketUsers state_AB) ''sA'' = Some ''u1'' \<longleftrightarrow>
      Map_get (userConnections state_AB) ''u1'' = Some ''sA'')"
proof (intro conjI)
  show "connect init sock_A = Inr state_A" by (rule connect_init_A)
  show "connect state_A sock_B = Inr state_AB" by (rule connect_A_B)
  show "reachable state_AB" by (rule reachable_state_AB)
  show "\<not> (Map_get (socketUsers state_AB) ''sA'' = Some ''u1'' \<longleftrightarrow>
      Map_get (userConnections state_AB) ''u1'' = Some ''sA'')"
    by (simp add: state_AB_def Map_get_def)
qed

text \<open>
  Claim C3, amended: in every reachable state each forward entry \<open>u \<mapsto> c\<close> has the reverse
  entry \<open>c \<mapsto> u\<close>, and each reverse entry \<open>c \<mapsto> u\<close> belongs to a connected socket with id
  \<open>c\<close> whose connection handler registered it as \<open>u\<close>. The converse of the first part does
  not hold: the reverse entry of a replaced connection stays until that socket disconnects.
\<close>

theorem forward_has_reverse:
  assumes "reachable s"
  shows "(Map_get (userConnections s) u = Some c \<longrightarrow> Map_get (socketUsers s) c = Some u) \<and>
         (Map_get (socketUsers s) c = Some u \<longrightarrow>
            (\<exists>k \<in> set (sockets s). socket_id k = c \<and> userId_of k = u))"
proof -
  from reachable_inv [OF assms] have r: "registry_inv s" by simp
  have "\<exists>k \<in> set (sockets s). socket_id k = c \<and> userId_of k = u"
    if h: "Map_get (socketUsers s) c = Some u"
  proof -
    from r h have "c \<in> set (map socket_id (sockets s))" unfolding registry_inv_def by blast
    then obtain k where k: "k \<in> set (sockets s)" "socket_id k = c" by auto
    with r have "Map_get (socketUsers s) c = Some (userId_of k)" unfolding registry_inv_def by blast
    with h k show ?thesis by auto
  qed
  moreover have "Map_get (userConnections s) u = Some c \<longrightarrow> Map_get (socketUsers s) c = Some u"
    using r unfolding registry_inv_def by blast
  ultimately show ?thesis by blast
qed

text \<open>Claim C3, amended, at the state after \<open>u1\<close> connected with socket \<open>sA\<close>.\<close>

theorem forward_has_reverse_witness:
  "Map_get (userConnections state_A) ''u1'' = Some ''sA'' \<and>
   Map_get (socketUsers state_A) ''sA'' = Some ''u1'' \<and>
   (\<exists>k \<in> set (sockets state_A). socket_id k = ''sA'' \<and> userId_of k = ''u1'')"
proof -
  have f: "Map_get (userConnections state_A) ''u1'' = Some ''sA''"
    by (simp add: state_A_def Map_get_def)
  with forward_has_reverse [OF reachable_state_A, of "''u1''" "''sA''"] show ?thesis by blast
qed

text \<open>
  Counterexample to claim C1 as stated (registering a user again discards the reverse entry
  of the previous connection): \<open>u1\<close> is registered with \<open>sA\<close>, registers again with \<open>sB\<close>, and
  afterwards \<open>sA\<close> still maps back to \<open>u1\<close> in the reverse index.
\<close>

theorem reregister_discards_reverse_counterexample:
  "connect init sock_A = Inr state_A \<and>
   Map_get (userConnections state_A) ''u1'' = Some ''sA'' \<and>
   connect state_A sock_B = Inr state_AB \<and>
   Map_get (userConnections state_AB) ''u1'' = Some ''sB'' \<and>
   \<not> Map_get (socketUsers state_AB) ''sA'' \<noteq> Some ''u1''"
  by (simp add: connect_init_A connect_A_B) (simp add: state_A_def state_AB_def Map_get_def)

lemma fresh_socket_id:
  "fresh_socket s k \<Longrightarrow> c \<in> set (map socket_id (sockets s)) \<Longrightarrow> c \<noteq> socket_id k"
  unfolding fresh_socket_def by blast

lemma run_keeping_reverse:
  assumes "run_keeping a s1 s'" "a \<in> set (map socket_id (sockets s1))"
    "Map_get (socketUsers s1) a = Some u"
  shows "a \<in> set (map socket_id (sockets s')) \<and> Map_get (socketUsers s') a = Some u"
  using assms
proof (induction rule: run_keeping.induct)
  case k_start
  then show ?case by simp
next
  case (k_connect s2 sock s3)
  then have ih: "a \<in> set (map socket_id (sockets s2))" "Map_get (socketUsers s2) a = Some u"
    by simp_all
  from k_connect.hyps(2) ih(1) have "a \<noteq> socket_id sock" by (rule fresh_socket_id)
  with ih connect_maps(2) [OF k_connect.hyps(3)] connect_sockets [OF k_connect.hyps(3)]
  show ?case by simp
next
  case (k_event s2 sock e now out s3)
  with on_event_registry [OF k_event.hyps(3)] show ?case by simp
next
  case (k_disconnect s2 sock reason)
  then have ih: "a \<in> set (map socket_id (sockets s2))" "Map_get (socketUsers s2) a = Some u"
    by simp_all
  from ih(1) k_disconnect.hyps(3)
  have "a \<in> set (map socket_id (sockets (disconnect s2 sock reason)))"
    by (auto simp: disconnect_sockets)
  with ih(2) k_disconnect.hyps(3) show ?case by (simp add: disconnect_maps)
next
  case (k_post s2 lc ep body now s3 res out)
  with post_state [OF k_post.hyps(2)] show ?case by simp
qed

text \<open>
  Claim C1, amended: when a user \<open>u\<close> registered with connection \<open>a\<close> registers again with a
  new connection \<open>b\<close>, the forward index maps \<open>u\<close> to \<open>b\<close>, the reverse index maps \<open>b\<close> to
  \<open>u\<close>, and the reverse entry of the previous connection \<open>a\<close> is kept: \<open>a\<close> still maps back
  to \<open>u\<close>, and it does so after every further run of the server in which \<open>a\<close> does not
  disconnect (\<open>a\<close> is then still connected). The disconnect of \<open>a\<close> itself removes the entry.
\<close>

theorem reregister_keeps_reverse:
  assumes "reachable s" "Map_get (userConnections s) u = Some a" "fresh_socket s b"
    "userId_of b = u" "connect s b = Inr s1" "run_keeping a s1 s'"
  shows "Map_get (userConnections s1) u = Some (socket_id b) \<and>
         Map_get (socketUsers s1) (socket_id b) = Some u \<and>
         Map_get (socketUsers s1) a = Some u \<and> a \<noteq> socket_id b \<and>
         Map_get (socketUsers s') a = Some u \<and>
         a \<in> set (map socket_id (sockets s')) \<and>
         (\<forall>k \<in> set (sockets s'). socket_id k = a \<longrightarrow>
            Map_get (socketUsers (disconnect s' k reason)) a = None)"
proof -
  from reachable_inv [OF assms(1)] have r: "registry_inv s" by simp
  from r assms(2) have a: "Map_get (socketUsers s) a = Some u"
    unfolding registry_inv_def by blast
  with r have live: "a \<in> set (map socket_id (sockets s))" unfolding registry_inv_def by blast
  with assms(3) have ne: "a \<noteq> socket_id b" unfolding fresh_socket_def by blast
  note m = connect_maps [OF assms(5)]
  from a ne assms(4) have now: "Map_get (userConnections s1) u = Some (socket_id b)"
    "Map_get (socketUsers s1) (socket_id b) = Some u" "Map_get (socketUsers s1) a = Some u"
    by (simp_all add: m)
  from live have "a \<in> set (map socket_id (sockets s1))"
    by (simp add: connect_sockets [OF assms(5)])
  from run_keeping_reverse [OF assms(6) this now(3)]
  have later: "a \<in> set (map socket_id (sockets s'))" "Map_get (socketUsers s') a = Some u"
    by simp_all
  have "\<forall>k \<in> set (sockets s'). socket_id k = a \<longrightarrow>
            Map_get (socketUsers (disconnect s' k reason)) a = None"
    by (simp add: disconnect_maps)
  with now ne later show ?thesis by blast
qed

text \<open>
  Claim C1, amended, for \<open>u1\<close> connecting with \<open>sA\<close> and then with \<open>sB\<close>, after which \<open>sB\<close>
  disconnects and \<open>sA\<close> stays: \<open>sA\<close> still maps back to \<open>u1\<close>, until \<open>sA\<close> disconnects too.
\<close>

theorem reregister_keeps_reverse_witness:
  "Map_get (userConnections state_AB) ''u1'' = Some ''sB'' \<and>
   Map_get (socketUsers state_AB) ''sB'' = Some ''u1'' \<and>
   Map_get (socketUsers state_AB) ''sA'' = Some ''u1'' \<and>
   Map_get (socketUsers (disconnect state_AB sock_B ''transport close'')) ''sA'' = Some ''u1'' \<and>
   Map_get (socketUsers (disconnect (disconnect state_AB sock_B ''transport close'') sock_A
                           ''transport close'')) ''sA'' = None"
proof -
  have f: "Map_get (userConnections state_A) ''u1'' = Some ''sA''"
    by (simp add: state_A_def Map_get_def)
  have g: "fresh_socket state_A sock_B" by (simp add: example_defs)
  have h: "userId_of sock_B = ''u1''" by (simp add: example_defs)
  have i: "socket_id sock_B = ''sB''" "socket_id sock_A = ''sA''"
    by (simp_all add: sock_A_def sock_B_def)
  have m: "sock_B \<in> set (sockets state_AB)" by (simp add: state_AB_def)
  have run: "run_keeping ''sA'' state_AB (disconnect state_AB sock_B ''transport close'')"
    by (rule k_disconnect [OF k_start m]) (simp add: i)
  have live: "sock_A \<in> set (sockets (disconnect state_AB sock_B ''transport close''))"
    by (simp add: disconnect_sockets state_AB_def i)
  from reregister_keeps_reverse [OF reachable_state_A f g h connect_A_B run,
      of "''transport close''"] i live
  show ?thesis by auto
qed

section \<open>Disconnect of a replaced connection\<close>

text \<open>
  Claim C2: user \<open>u\<close> connects with socket \<open>a\<close> and then with socket \<open>b\<close>, so that \<open>u\<close>
  resolves to \<open>b\<close>; then \<open>a\<close> disconnects. After the disconnect handler of \<open>a\<close> the forward
  index has no entry for \<open>u\<close> and sending to \<open>u\<close> reports \<open>delivered: false\<close> with nothing
  emitted, although \<open>b\<close> is still connected, still in the personal room of \<open>u\<close> and still
  maps back to \<open>u\<close>.
\<close>

theorem stale_disconnect_unmaps_user:
  assumes "userId_of a = u" "userId_of b = u" "socket_id a \<noteq> socket_id b"
    "truthy ev" "connect s a = Inr s1" "connect s1 b = Inr s2"
  shows "Map_get (userConnections s2) u = Some (socket_id b) \<and>
         Map_get (userConnections (disconnect s2 a reason)) u = None \<and>
         sendToUser (disconnect s2 a reason) (JStr u) ev payload = (Inr False, []) \<and>
         notify_user (disconnect s2 a reason)
             (JObj [(''userId'', JStr u), (''event'', ev), (''data'', payload)]) now
           = (ok [(''delivered'', JBool False)], []) \<and>
         b \<in> set (sockets (disconnect s2 a reason)) \<and>
         Map_get (socketUsers (disconnect s2 a reason)) (socket_id b) = Some u \<and>
         socket_id b \<in> set (members (disconnect s2 a reason) (''user-'' @ u))"
proof -
  let ?s3 = "disconnect s2 a reason"
  note m1 = connect_maps [OF assms(5)]
  note m2 = connect_maps [OF assms(6)]
  have rev: "Map_get (socketUsers s2) (socket_id a) = Some u"
    using assms(1,3) by (simp add: m1 m2)
  have fwd: "Map_get (userConnections s2) u = Some (socket_id b)"
    using assms(2) by (simp add: m2)
  have gone: "Map_get (userConnections ?s3) u = None"
    using rev by (simp add: disconnect_maps)
  then have look: "lookup_user ?s3 (JStr u) = None" by simp
  have u: "u \<noteq> []" using assms(1) userId_of_nonempty by blast
  have live: "b \<in> set (sockets ?s3)"
    using assms(3) by (simp add: disconnect_sockets connect_sockets [OF assms(6)])
  from connect_rooms [OF assms(6)] assms(2)
  have "(''user-'' @ u, socket_id b) \<in> set (rooms s2)" by auto
  then have "(''user-'' @ u, socket_id b) \<in> set (rooms ?s3)"
    using assms(3) by (simp add: disconnect_rooms)
  then have room: "socket_id b \<in> set (members ?s3 (''user-'' @ u))"
    by (force simp: members_def)
  have rev_b: "Map_get (socketUsers ?s3) (socket_id b) = Some u"
    using assms(2,3) by (simp add: disconnect_maps m2)
  have send: "sendToUser ?s3 (JStr u) ev payload = (Inr False, [])"
    by (rule sendToUser_absent [OF look]) simp
  have rest: "notify_user ?s3 (JObj [(''userId'', JStr u), (''event'', ev), (''data'', payload)]) now
           = (ok [(''delivered'', JBool False)], [])"
    using look u assms(4) by (intro notify_user_absent) simp_all
  from fwd gone send rest live rev_b room show ?thesis by blast
qed

text \<open>Claim C2 for \<open>u1\<close> with the sockets \<open>sA\<close> and \<open>sB\<close>.\<close>

theorem stale_disconnect_unmaps_user_witness:
  "Map_get (userConnections state_AB) ''u1'' = Some ''sB'' \<and>
   Map_get (userConnections (disconnect state_AB sock_A ''transport close'')) ''u1'' = None \<and>
   sendToUser (disconnect state_AB sock_A ''transport close'') (JStr ''u1'') (JStr ''X'') JNull
     = (Inr False, []) \<and>
   sock_B \<in> set (sockets (disconnect state_AB sock_A ''transport close''))"
proof -
  have a: "userId_of sock_A = ''u1''" by (simp add: example_defs)
  have b: "userId_of sock_B = ''u1''" by (simp add: example_defs)
  have c: "socket_id sock_A \<noteq> socket_id sock_B" by (simp add: example_defs)
  have d: "truthy (JStr ''X'')" by simp
  have e: "socket_id sock_B = ''sB''" by (simp add: example_defs)
  from stale_disconnect_unmaps_user [OF a b c d connect_init_A connect_A_B,
      of "''transport close''" JNull] e
  show ?thesis by simp
qed

section \<open>Disconnect\<close>

text \<open>
  Claim C8: for every connected socket, the disconnect removes the socket's reverse entry,
  leaves no forward entry pointing to it, removes the forward and the role entry of its
  user, takes the socket out of every room and out of the connected sockets, and
  afterwards sending to its user reports \<open>delivered: false\<close> with nothing emitted. The
  handler is a total function of the state and the socket: it has no failing branch, and
  its result does not depend on the reason of the disconnect.
\<close>

theorem disconnect_cleans_up:
  assumes "reachable s" "k \<in> set (sockets s)"
  shows "Map_get (socketUsers (disconnect s k reason)) (socket_id k) = None \<and>
         (\<forall>u. Map_get (userConnections (disconnect s k reason)) u \<noteq> Some (socket_id k)) \<and>
         Map_get (userConnections (disconnect s k reason)) (userId_of k) = None \<and>
         Map_get (userRoles (disconnect s k reason)) (userId_of k) = None \<and>
         (\<forall>room. socket_id k \<notin> set (members (disconnect s k reason) room)) \<and>
         socket_id k \<notin> set (map socket_id (sockets (disconnect s k reason))) \<and>
         sendToUser (disconnect s k reason) (JStr (userId_of k)) ev payload = (Inr False, []) \<and>
         disconnect s k reason' = disconnect s k reason"
proof -
  let ?s' = "disconnect s k reason"
  from reachable_inv [OF assms(1)] have r: "registry_inv s" by simp
  from r assms(2) have su: "Map_get (socketUsers s) (socket_id k) = Some (userId_of k)"
    unfolding registry_inv_def by blast
  have fwd: "Map_get (userConnections ?s') u \<noteq> Some (socket_id k)" for u
  proof
    assume h: "Map_get (userConnections ?s') u = Some (socket_id k)"
    then have "Map_get (userConnections s) u = Some (socket_id k)" "userId_of k \<noteq> u"
      using su by (auto simp: disconnect_maps split: if_splits)
    with r su show False unfolding registry_inv_def by fastforce
  qed
  have gone: "Map_get (userConnections ?s') (userId_of k) = None"
    using su by (simp add: disconnect_maps)
  have room: "socket_id k \<notin> set (members ?s' room)" for room
    by (auto simp: members_def disconnect_rooms)
  have same: "disconnect s k reason' = disconnect s k reason"
    by (simp add: disconnect_def on_disconnect_def)
  from gone have "lookup_user ?s' (JStr (userId_of k)) = None" by simp
  then have send: "sendToUser ?s' (JStr (userId_of k)) ev payload = (Inr False, [])"
    by (rule sendToUser_absent) simp
  have rev: "Map_get (socketUsers ?s') (socket_id k) = None"
    by (simp add: disconnect_maps)
  have ro: "Map_get (userRoles ?s') (userId_of k) = None"
    using su by (simp add: disconnect_maps)
  have live: "socket_id k \<notin> set (map socket_id (sockets ?s'))"
    by (auto simp: disconnect_sockets)
  from rev fwd gone ro room live send same show ?thesis by blast
qed

text \<open>Claim C8 for the socket \<open>sA\<close> of \<open>u1\<close>, disconnected by a ping timeout.\<close>

theorem disconnect_cleans_up_witness:
  "Map_get (socketUsers (disconnect state_A sock_A ''ping timeout'')) ''sA'' = None \<and>
   Map_get (userConnections (disconnect state_A sock_A ''ping timeout'')) ''u1'' = None \<and>
   Map_get (userRoles (disconnect state_A sock_A ''ping timeout'')) ''u1'' = None \<and>
   rooms (disconnect state_A sock_A ''ping timeout'') = [] \<and>
   sendToUser (disconnect state_A sock_A ''ping timeout'') (JStr ''u1'') (JStr ''X'') JNull
     = (Inr False, [])"
proof -
  have m: "sock_A \<in> set (sockets state_A)" by (simp add: state_A_def)
  have i: "socket_id sock_A = ''sA''" "userId_of sock_A = ''u1''" by (simp_all add: example_defs)
  have e: "rooms (disconnect state_A sock_A ''ping timeout'') = []"
    by (simp add: example_defs)
  from disconnect_cleans_up [OF reachable_state_A m, of "''ping timeout''" "JStr ''X''" JNull] i e
  show ?thesis by simp
qed

section \<open>Request validation\<close>

text \<open>
  Claim C9: for every POST endpoint and every body in which a field the handler requires
  is absent (or otherwise falsy), the request is answered with a failure response, the
  same whatever the state: status 400 with \<open>success: false\<close> and an error message, or the
  error middleware's response when there is no body to destructure. No event is emitted
  and the state is unchanged.
\<close>

theorem missing_required_field_rejected:
  assumes "f \<in> set (required ep)" "\<not> truthy (get_prop body f)"
  shows "\<exists>res. (res = InternalError \<or> (\<exists>msg. res = bad_request msg)) \<and>
               (\<forall>s. post lc ep s body now = (s, res, []))"
proof (cases "destructurable body")
  case False
  then have "\<forall>s. post lc ep s body now = (s, InternalError, [])"
    by (cases ep)
       (simp_all add: post_def notify_chat_message_def notify_chat_read_def
          notify_call_incoming_def notify_call_answered_def notify_call_rejected_def
          notify_caller_def notify_call_ended_def notify_user_def notify_users_def
          notify_role_def notify_all_def)
  then show ?thesis by blast
next
  case True
  with assms have "\<exists>msg. \<forall>s. post lc ep s body now = (s, bad_request msg, [])"
    by (cases ep)
       (auto simp: post_def notify_chat_message_def notify_chat_read_def
          notify_call_incoming_def notify_call_answered_def notify_call_rejected_def
          notify_caller_def notify_call_ended_def notify_user_def notify_users_def
          notify_role_def notify_all_def Let_def)
  then show ?thesis by blast
qed

text \<open>
  Claim C9 for \<open>/notify/users\<close> with a body that has no \<open>event\<close>, in a state where the
  addressed user is connected.
\<close>

theorem missing_required_field_rejected_witness:
  "post lower_ascii NotifyUsers state_A (JObj [(''userIds'', JArr [JStr ''u1''])]) ''t''
     = (state_A, bad_request ''userIds (array) and event are required'', [])"
proof -
  have a: "''event'' \<in> set (required NotifyUsers)" by simp
  have b: "\<not> truthy (get_prop (JObj [(''userIds'', JArr [JStr ''u1''])]) ''event'')" by simp
  from missing_required_field_rejected [OF a b, of lower_ascii "''t''"]
  obtain res where "post lower_ascii NotifyUsers state_A (JObj [(''userIds'', JArr [JStr ''u1''])]) ''t''
     = (state_A, res, [])" by blast
  moreover have "fst (snd (post lower_ascii NotifyUsers state_A (JObj [(''userIds'', JArr [JStr ''u1''])]) ''t''))
     = bad_request ''userIds (array) and event are required''"
    by (simp add: post_def notify_users_def Let_def)
  ultimately show ?thesis by simp
qed

section \<open>Call signalling\<close>

text \<open>
  Claim C6: \<open>call:answer\<close> whose \<open>callerId\<close> is the sender, and \<open>call:ice-candidate\<close> whose
  \<open>targetUserId\<close> is the sender, emit nothing: no delivery and no error event. The same
  holds when the target is another user who is not connected. In these cases the handler
  returns with the state unchanged whenever its log statement can print the target (a
  string always can; the sender's own id is a string).
\<close>

theorem answer_and_candidate_fail_silently:
  "(get_prop data ''callerId'' = JStr (userId_of k) \<or>
    lookup_user s (get_prop data ''callerId'') = None \<longrightarrow>
      fst (on_call_answer s k data now) = [] \<and>
      (destructurable data \<and> convertible (get_prop data ''callerId'') \<longrightarrow>
         on_call_answer s k data now = ([], Inr s))) \<and>
   (get_prop data ''targetUserId'' = JStr (userId_of k) \<or>
    lookup_user s (get_prop data ''targetUserId'') = None \<longrightarrow>
      fst (on_call_ice_candidate s k data now) = [] \<and>
      (destructurable data \<and> convertible (get_prop data ''targetUserId'') \<longrightarrow>
         on_call_ice_candidate s k data now = ([], Inr s)))"
  by (auto simp: on_call_answer_def on_call_ice_candidate_def connected_def Let_def
        interpolates_def)

text \<open>
  Claim C6 for \<open>u1\<close> answering itself, and \<open>u1\<close> sending a candidate to the absent \<open>u2\<close>.
\<close>

theorem answer_and_candidate_fail_silently_witness:
  "on_call_answer state_A sock_A
      (JObj [(''callId'', JStr ''c1''), (''callerId'', JStr ''u1''), (''answer'', JObj [])]) ''t''
     = ([], Inr state_A) \<and>
   on_call_ice_candidate state_A sock_A
      (JObj [(''callId'', JStr ''c1''), (''targetUserId'', JStr ''u2''), (''candidate'', JObj [])]) ''t''
     = ([], Inr state_A)"
proof -
  have i: "userId_of sock_A = ''u1''" by (simp add: example_defs)
  have n: "lookup_user state_A (JStr ''u2'') = None" by (simp add: state_A_def Map_get_def)
  from answer_and_candidate_fail_silently
    [of "JObj [(''callId'', JStr ''c1''), (''callerId'', JStr ''u1''), (''answer'', JObj [])]"
        sock_A state_A "''t''"] i
  have "on_call_answer state_A sock_A
      (JObj [(''callId'', JStr ''c1''), (''callerId'', JStr ''u1''), (''answer'', JObj [])]) ''t''
     = ([], Inr state_A)" by simp
  moreover from answer_and_candidate_fail_silently
    [of "JObj [(''callId'', JStr ''c1''), (''targetUserId'', JStr ''u2''), (''candidate'', JObj [])]"
        sock_A state_A "''t''"] n
  have "on_call_ice_candidate state_A sock_A
      (JObj [(''callId'', JStr ''c1''), (''targetUserId'', JStr ''u2''), (''candidate'', JObj [])]) ''t''
     = ([], Inr state_A)" by simp
  ultimately show ?thesis by simp
qed

lemma filter_eq_singleton:
  "distinct xs \<Longrightarrow> x \<in> set xs \<Longrightarrow> filter (\<lambda>y. y = x) xs = [x]"
proof (induction xs)
  case Nil
  then show ?case by simp
next
  case (Cons a xs)
  show ?case
  proof (cases "a = x")
    case True
    with Cons.prems have "x \<notin> set xs" by simp
    then have "filter (\<lambda>y. y = x) xs = []" by (auto simp: filter_empty_conv)
    with True show ?thesis by simp
  next
    case False
    with Cons show ?thesis by simp
  qed
qed

lemma own_room_members:
  assumes "transport_inv s" "k \<in> set (sockets s)"
  shows "members s (socket_id k) = [socket_id k]"
proof -
  let ?c = "socket_id k"
  have pre: "take 5 ?c \<notin> {''role-'', ''user-'', ''chat-''}"
    using assms unfolding transport_inv_def by blast
  have "fst p = ?c \<longleftrightarrow> p = (?c, ?c)" if "p \<in> set (rooms s)" for p
  proof
    assume f: "fst p = ?c"
    from assms(1) that have "fst p = snd p \<or> take 5 (fst p) \<in> {''role-'', ''user-'', ''chat-''}"
      unfolding transport_inv_def by blast
    with f pre have "snd p = ?c" by auto
    with f show "p = (?c, ?c)" by (simp add: prod_eq_iff)
  next
    assume "p = (?c, ?c)"
    then show "fst p = ?c" by simp
  qed
  then have "filter (\<lambda>p. fst p = ?c) (rooms s) = filter (\<lambda>p. p = (?c, ?c)) (rooms s)"
    by (simp cong: filter_cong)
  also have "\<dots> = [(?c, ?c)]"
    using assms unfolding transport_inv_def by (blast intro: filter_eq_singleton)
  finally show ?thesis by (simp add: members_def)
qed

lemma own_socket_recipients:
  assumes "transport_inv s" "k \<in> set (sockets s)"
  shows "recipients s (ToSocket (socket_id k)) = [socket_id k]"
proof -
  from assms have "distinct (map socket_id (sockets s))" "socket_id k \<in> set (map socket_id (sockets s))"
    unfolding transport_inv_def by auto
  then show ?thesis by (simp add: filter_eq_singleton del: set_map)
qed

text \<open>
  The three branches of \<open>call:offer\<close>, for a connected socket \<open>k\<close> of sender \<open>S\<close> in a
  reachable state. If \<open>receiverId\<close> is \<open>S\<close>, exactly one event is emitted, \<open>call:error\<close> with
  \<open>Cannot call yourself\<close>, to the sending socket only. Otherwise, if \<open>receiverId\<close> resolves to
  a connection \<open>c\<close>, exactly one event is emitted, \<open>call:offer\<close> with \<open>callId\<close>, \<open>callerId = S\<close>,
  \<open>offer\<close> and the timestamp; it is received by \<open>c\<close> only, and \<open>c\<close> is no socket of \<open>S\<close>; the
  handler then returns if the log statement can print the call id. Otherwise, if the log
  statement can print \<open>receiverId\<close>, exactly one event is emitted, \<open>call:error\<close> with
  \<open>Receiver not connected\<close>, to the sending socket only.
\<close>

lemma call_offer_relay:
  assumes "reachable s" "k \<in> set (sockets s)" "destructurable data"
  shows "(get_prop data ''receiverId'' = JStr (userId_of k) \<longrightarrow>
            on_call_offer s k data now =
              ([Emit (ToSocket (socket_id k)) (JStr ''call:error'')
                  (JObj [(''callId'', get_prop data ''callId''),
                         (''error'', JStr ''Cannot call yourself'')])], Inr s) \<and>
            recipients s (ToSocket (socket_id k)) = [socket_id k]) \<and>
         (get_prop data ''receiverId'' \<noteq> JStr (userId_of k) \<longrightarrow>
            (\<forall>c. lookup_user s (get_prop data ''receiverId'') = Some c \<longrightarrow>
               fst (on_call_offer s k data now) =
                 [Emit (ToRoom c) (JStr ''call:offer'')
                    (JObj [(''callId'', get_prop data ''callId''),
                           (''callerId'', JStr (userId_of k)),
                           (''offer'', get_prop data ''offer''),
                           (''timestamp'', JStr now)])] \<and>
               (convertible (get_prop data ''callId'') \<longrightarrow>
                  snd (on_call_offer s k data now) = Inr s) \<and>
               recipients s (ToRoom c) = [c] \<and>
               (\<forall>k' \<in> set (sockets s). userId_of k' = userId_of k \<longrightarrow> socket_id k' \<noteq> c)) \<and>
            (lookup_user s (get_prop data ''receiverId'') = None \<and>
             convertible (get_prop data ''receiverId'') \<longrightarrow>
               on_call_offer s k data now =
                 ([Emit (ToSocket (socket_id k)) (JStr ''call:error'')
                     (JObj [(''callId'', get_prop data ''callId''),
                            (''error'', JStr ''Receiver not connected'')])], Inr s) \<and>
               recipients s (ToSocket (socket_id k)) = [socket_id k]))"
proof -
  from reachable_inv [OF assms(1)] have r: "registry_inv s" and t: "transport_inv s" by simp_all
  note own = own_socket_recipients [OF t assms(2)]
  note conn = reachable_connected [OF assms(1)]
  let ?r = "get_prop data ''receiverId''"
  have self: "on_call_offer s k data now =
              ([Emit (ToSocket (socket_id k)) (JStr ''call:error'')
                  (JObj [(''callId'', get_prop data ''callId''),
                         (''error'', JStr ''Cannot call yourself'')])], Inr s)"
    if "?r = JStr (userId_of k)"
    using that assms(3) by (simp add: on_call_offer_def Let_def)
  have absent: "on_call_offer s k data now =
                 ([Emit (ToSocket (socket_id k)) (JStr ''call:error'')
                     (JObj [(''callId'', get_prop data ''callId''),
                            (''error'', JStr ''Receiver not connected'')])], Inr s)"
    if "?r \<noteq> JStr (userId_of k)" "lookup_user s ?r = None" "convertible ?r"
    using that assms(3) by (simp add: on_call_offer_def Let_def conn interpolates_def)
  have present: "fst (on_call_offer s k data now) =
                 [Emit (ToRoom c) (JStr ''call:offer'')
                    (JObj [(''callId'', get_prop data ''callId''),
                           (''callerId'', JStr (userId_of k)),
                           (''offer'', get_prop data ''offer''),
                           (''timestamp'', JStr now)])] \<and>
               (convertible (get_prop data ''callId'') \<longrightarrow>
                  snd (on_call_offer s k data now) = Inr s) \<and>
               recipients s (ToRoom c) = [c] \<and>
               (\<forall>k' \<in> set (sockets s). userId_of k' = userId_of k \<longrightarrow> socket_id k' \<noteq> c)"
    if ne: "?r \<noteq> JStr (userId_of k)" and l: "lookup_user s ?r = Some c" for c
  proof -
    from reachable_lookup [OF assms(1) l] obtain kc
      where kc: "kc \<in> set (sockets s)" "socket_id kc = c" "?r = JStr (userId_of kc)" by blast
    have one: "recipients s (ToRoom c) = [c]"
      using own_room_members [OF t kc(1)] kc(2) by simp
    have other: "socket_id k' \<noteq> c" if k': "k' \<in> set (sockets s)" "userId_of k' = userId_of k" for k'
    proof
      assume "socket_id k' = c"
      with r k'(1) have "Map_get (socketUsers s) c = Some (userId_of k')"
        unfolding registry_inv_def by blast
      moreover from r kc(1,2) have "Map_get (socketUsers s) c = Some (userId_of kc)"
        unfolding registry_inv_def by blast
      ultimately have "userId_of kc = userId_of k" using k'(2) by simp
      with kc(3) ne show False by simp
    qed
    from ne l assms(3) kc(3) have "fst (on_call_offer s k data now) =
                 [Emit (ToRoom c) (JStr ''call:offer'')
                    (JObj [(''callId'', get_prop data ''callId''),
                           (''callerId'', JStr (userId_of k)),
                           (''offer'', get_prop data ''offer''),
                           (''timestamp'', JStr now)])]"
      "convertible (get_prop data ''callId'') \<longrightarrow> snd (on_call_offer s k data now) = Inr s"
      by (simp_all add: on_call_offer_def Let_def conn interpolates_def)
    with one other show ?thesis by blast
  qed
  from self absent present own show ?thesis by blast
qed

text \<open>
  Claim C4 (when the receiver is not connected, exactly one \<open>call:error\<close> is emitted to the
  sender) at a failing input: \<open>u1\<close> sends \<open>call:offer\<close> with the receiver id
  \<open>{"toString": 1}\<close>. The id is not the sender and resolves to no connection, and the log
  statement \<open>`Receiver ${receiverId} not connected`\<close>, which runs before \<open>socket.emit\<close>,
  throws a TypeError: nothing is emitted and the handler does not return. For the absent
  receiver \<open>"u3"\<close> the same branch emits the error event.
\<close>

theorem call_offer_log_throws:
  "lookup_user state_A (JObj [(''toString'', JNum ''1'')]) = None \<and>
   on_call_offer state_A sock_A
      (JObj [(''callId'', JStr ''c1''), (''receiverId'', JObj [(''toString'', JNum ''1'')]),
             (''offer'', JObj [])]) ''t''
     = ([], Inl TypeError) \<and>
   on_call_offer state_A sock_A
      (JObj [(''callId'', JStr ''c1''), (''receiverId'', JStr ''u3''), (''offer'', JObj [])]) ''t''
     = ([Emit (ToSocket ''sA'') (JStr ''call:error'')
           (JObj [(''callId'', JStr ''c1''), (''error'', JStr ''Receiver not connected'')])],
        Inr state_A)"
  by (simp add: on_call_offer_def connected_def interpolates_def convertible_def
        state_A_def sock_A_def userId_of_def Map_get_def)

text \<open>
  Claim C4 at the failing input: no event at all is emitted, in particular no
  \<open>call:error\<close>.
\<close>

theorem call_offer_log_throws_witness:
  "fst (on_call_offer state_A sock_A
          (JObj [(''callId'', JStr ''c1''), (''receiverId'', JObj [(''toString'', JNum ''1'')]),
                 (''offer'', JObj [])]) ''t'') = []"
  using call_offer_log_throws by simp

section \<open>Sending to a user who is not connected\<close>

text \<open>
  For every user id that the forward index does not map and that the log statement can
  print (every string, in particular), sending to it returns \<open>delivered = false\<close> and emits
  nothing, and \<open>/notify/user\<close> answers \<open>{success: true, delivered: false}\<close>. No user id is
  mapped in the initial state, and the user of a socket is not mapped after that socket's
  disconnect.
\<close>

lemma sendToUser_absent_user:
  "(lookup_user s uid = None \<and> convertible uid \<longrightarrow>
      sendToUser s uid ev payload = (Inr False, []) \<and>
      (destructurable body \<and> get_prop body ''userId'' = uid \<and> truthy uid \<and>
       truthy (get_prop body ''event'') \<longrightarrow>
         notify_user s body now = (ok [(''delivered'', JBool False)], []))) \<and>
   lookup_user init uid = None \<and>
   (reachable s \<and> k \<in> set (sockets s) \<longrightarrow>
      lookup_user (disconnect s k reason) (JStr (userId_of k)) = None)"
proof (intro conjI impI)
  assume "lookup_user s uid = None \<and> convertible uid"
  then show "sendToUser s uid ev payload = (Inr False, [])" by (simp add: sendToUser_absent)
next
  assume "lookup_user s uid = None \<and> convertible uid"
    and "destructurable body \<and> get_prop body ''userId'' = uid \<and> truthy uid \<and>
       truthy (get_prop body ''event'')"
  then show "notify_user s body now = (ok [(''delivered'', JBool False)], [])"
    by (simp add: notify_user_absent)
next
  show "lookup_user init uid = None" by (cases uid) (simp_all add: init_def Map_get_def)
next
  assume h: "reachable s \<and> k \<in> set (sockets s)"
  from reachable_inv h have "registry_inv s" by blast
  with h have "Map_get (socketUsers s) (socket_id k) = Some (userId_of k)"
    unfolding registry_inv_def by blast
  then show "lookup_user (disconnect s k reason) (JStr (userId_of k)) = None"
    by (simp add: disconnect_maps)
qed

text \<open>
  Claim C10 (for every user id that is not mapped, sending returns \<open>delivered = false\<close> and
  does not raise) at a failing input: \<open>/notify/user\<close> with the user id \<open>{"toString": 1}\<close>,
  which passes the required-field check and is not mapped. The log statement
  \<open>`User ${userId} not connected`\<close>, which runs before the response is written, throws a
  TypeError, and the request is answered by the error middleware. The handler
  \<open>/notify/call/answered\<close>, which does not log on this path, answers \<open>delivered: false\<close> for
  the same id.
\<close>

theorem notify_user_log_throws:
  "lookup_user init (JObj [(''toString'', JNum ''1'')]) = None \<and>
   sendToUser init (JObj [(''toString'', JNum ''1'')]) (JStr ''X'') JUndefined
     = (Inl TypeError, []) \<and>
   notify_user init
      (JObj [(''userId'', JObj [(''toString'', JNum ''1'')]), (''event'', JStr ''X'')]) ''t''
     = (InternalError, []) \<and>
   notify_call_answered init
      (JObj [(''callId'', JStr ''c1''), (''callerId'', JObj [(''toString'', JNum ''1'')])]) ''t''
     = (ok [(''delivered'', JBool False)], [])"
  by (simp add: notify_user_def sendToUser_def notify_call_answered_def notify_caller_def
        connected_def interpolates_def convertible_def)

text \<open>
  Claim C10 at the failing input: the response is not \<open>{success: true, delivered: false}\<close>.
\<close>

theorem notify_user_log_throws_witness:
  "notify_user init
      (JObj [(''userId'', JObj [(''toString'', JNum ''1'')]), (''event'', JStr ''X'')]) ''t''
     \<noteq> (ok [(''delivered'', JBool False)], [])"
  using notify_user_log_throws by (simp add: ok_def)

section \<open>Role broadcast\<close>

lemma length_filter_map_of:
  assumes "distinct (map fst xs)"
  shows "length (filter (\<lambda>(u, r). P r) xs) = card {u. \<exists>r. map_of xs u = Some r \<and> P r}"
  using assms
proof (induction xs)
  case Nil
  then show ?case by simp
next
  case (Cons x xs)
  obtain a b where x: "x = (a, b)" by (cases x)
  let ?S = "{u. \<exists>r. map_of xs u = Some r \<and> P r}"
  from Cons.prems x have a: "a \<notin> fst ` set xs" and d: "distinct (map fst xs)" by simp_all
  have sub: "?S \<subseteq> fst ` set xs" by (auto dest: map_of_SomeD intro: rev_image_eqI)
  then have fin: "finite ?S" by (rule finite_subset) simp
  from a sub have notin: "a \<notin> ?S" by blast
  have "{u. \<exists>r. map_of (x # xs) u = Some r \<and> P r} = (if P b then insert a ?S else ?S)"
    using notin x by auto
  with fin notin Cons.IH [OF d] x show ?case by simp
qed

lemma count_matching_strings:
  "list_all (\<lambda>(u, userRole). isString userRole) es \<Longrightarrow>
   count_matching lc (JStr r) es =
     Inr (length (filter (\<lambda>(u, userRole). same_ignoring_case lc r userRole) es))"
proof (induction es)
  case Nil
  then show ?case by simp
next
  case (Cons e es)
  obtain u ro where e: "e = (u, ro)" by (cases e)
  with Cons.prems obtain a where a: "ro = JStr a" by (cases ro) simp_all
  from Cons e a show ?case by simp
qed

lemma notify_role_string:
  assumes "destructurable body" "get_prop body ''role'' = JStr r" "r \<noteq> []"
    "truthy (get_prop body ''event'')" "\<not> reserved (get_prop body ''event'')"
    "convertible (get_prop body ''event'')"
    "list_all (\<lambda>(u, userRole). isString userRole) (userRoles s)"
  shows "notify_role lc s body now =
     (ok [(''usersCount'',
           num (length (filter (\<lambda>(u, userRole). same_ignoring_case lc r userRole)
                          (userRoles s))))],
      [Emit (ToRoom (''role-'' @ r)) (get_prop body ''event'') (get_prop body ''data'')])"
  using assms
  by (simp add: notify_role_def Let_def usersInRole_def count_matching_strings
        interpolates_def)

text \<open>
  Counterexample to claim C5 as stated (for every role string, \<open>/notify/role\<close> returns the
  count): with the event name \<open>connect\<close>, which Socket.IO reserves, the emit throws and the
  request is answered by the error middleware, without a count; and after a client
  registered with the role 5, a number, \<open>userRole.toLowerCase()\<close> throws and every request
  to \<open>/notify/role\<close> is answered the same way.
\<close>

theorem notify_role_count_counterexample:
  "notify_role lower_ascii state_A
      (JObj [(''role'', JStr ''driver''), (''event'', JStr ''connect'')]) ''t''
     = (InternalError, []) \<and>
   connect init sock_N = Inr state_N \<and>
   notify_role lower_ascii state_N
      (JObj [(''role'', JStr ''driver''), (''event'', JStr ''X'')]) ''t''
     = (InternalError, [])"
  by (simp add: connect_init_N)
     (simp add: notify_role_def usersInRole_def state_A_def state_N_def RESERVED_EVENTS_def)

text \<open>
  Claim C5, amended: for every role string \<open>r\<close> (not empty, which the handler rejects as a
  missing field) and every event name that is present (truthy), not reserved by the
  transport and printable by the log statement (every non-empty string other than the
  reserved names is), when every stored role is a string, \<open>/notify/role\<close> answers with
  \<open>usersCount\<close> equal to the number of entries of \<open>userRoles\<close> whose role equals \<open>r\<close> after
  \<open>toLowerCase\<close> on both sides (in a reachable state: the number of registered users with
  such a role), and emits the event once, to the room \<open>role-r\<close> with \<open>r\<close> exactly as given.
  The count is computed from \<open>userRoles\<close> alone, and it can differ from the number of
  sockets the room reaches: with one user registered with the stored role \<open>Driver\<close>, the
  count for \<open>driver\<close> is 1 (and the count for \<open>admin\<close> is 0) while the room \<open>role-driver\<close> is
  empty (the socket is in \<open>role-Driver\<close>).
\<close>

theorem notify_role_count_and_room:
  assumes "destructurable body" "get_prop body ''role'' = JStr r" "r \<noteq> []"
    "truthy (get_prop body ''event'')" "\<not> reserved (get_prop body ''event'')"
    "convertible (get_prop body ''event'')"
    "list_all (\<lambda>(u, userRole). isString userRole) (userRoles s)"
  shows "notify_role lc s body now =
           (ok [(''usersCount'',
                 num (length (filter (\<lambda>(u, userRole). same_ignoring_case lc r userRole)
                                (userRoles s))))],
            [Emit (ToRoom (''role-'' @ r)) (get_prop body ''event'') (get_prop body ''data'')]) \<and>
         (reachable s \<longrightarrow>
            length (filter (\<lambda>(u, userRole). same_ignoring_case lc r userRole) (userRoles s)) =
            card {u. \<exists>userRole. Map_get (userRoles s) u = Some userRole \<and>
                       same_ignoring_case lc r userRole}) \<and>
         length (userConnections state_A) = 1 \<and>
         (lc ''Driver'' = lc ''driver'' \<longrightarrow> usersInRole lc state_A (JStr ''driver'') = Inr 1) \<and>
         (lc ''Driver'' \<noteq> lc ''admin'' \<longrightarrow> usersInRole lc state_A (JStr ''admin'') = Inr 0) \<and>
         recipients state_A (ToRoom ''role-driver'') = [] \<and>
         recipients state_A (ToRoom ''role-Driver'') = [''sA'']"
proof -
  have count: "length (filter (\<lambda>(u, userRole). same_ignoring_case lc r userRole) (userRoles s)) =
            card {u. \<exists>userRole. Map_get (userRoles s) u = Some userRole \<and>
                       same_ignoring_case lc r userRole}" if "reachable s"
  proof -
    from reachable_inv [OF that] have "distinct (map fst (userRoles s))"
      by (simp add: registry_inv_def)
    from length_filter_map_of [OF this] show ?thesis by (simp add: Map_get_def)
  qed
  have ex: "length (userConnections state_A) = 1"
    "lc ''Driver'' = lc ''driver'' \<longrightarrow> usersInRole lc state_A (JStr ''driver'') = Inr 1"
    "lc ''Driver'' \<noteq> lc ''admin'' \<longrightarrow> usersInRole lc state_A (JStr ''admin'') = Inr 0"
    "recipients state_A (ToRoom ''role-driver'') = []"
    "recipients state_A (ToRoom ''role-Driver'') = [''sA'']"
    by (simp_all add: state_A_def usersInRole_def members_def)
  from notify_role_string [OF assms] count ex show ?thesis by blast
qed

lemma lower_ascii_examples:
  "lower_ascii ''Driver'' = ''driver''" "lower_ascii ''driver'' = ''driver''"
  "lower_ascii ''admin'' = ''admin''"
  by code_simp+

text \<open>
  Claim C5, amended, for the request \<open>{role: "driver", event: "X"}\<close> after \<open>u1\<close> connected
  with the role \<open>Driver\<close>.
\<close>

theorem notify_role_count_and_room_witness:
  "notify_role lower_ascii state_A (JObj [(''role'', JStr ''driver''), (''event'', JStr ''X'')]) ''t''
     = (ok [(''usersCount'', num 1)], [Emit (ToRoom ''role-driver'') (JStr ''X'') JUndefined]) \<and>
   usersInRole lower_ascii state_A (JStr ''driver'') = Inr 1 \<and>
   usersInRole lower_ascii state_A (JStr ''admin'') = Inr 0 \<and>
   recipients state_A (ToRoom ''role-driver'') = []"
proof -
  let ?body = "JObj [(''role'', JStr ''driver''), (''event'', JStr ''X'')]"
  have a: "destructurable ?body" by simp
  have b: "get_prop ?body ''role'' = JStr ''driver''" by simp
  have c: "''driver'' \<noteq> []" by simp
  have d: "truthy (get_prop ?body ''event'')" by simp
  have e: "\<not> reserved (get_prop ?body ''event'')" by (simp add: RESERVED_EVENTS_def)
  have f: "convertible (get_prop ?body ''event'')" by simp
  have g: "list_all (\<lambda>(u, userRole). isString userRole) (userRoles state_A)"
    by (simp add: state_A_def)
  have n: "length (filter (\<lambda>(u, userRole). same_ignoring_case lower_ascii ''driver'' userRole)
             (userRoles state_A)) = 1"
    by (simp add: state_A_def lower_ascii_examples)
  from notify_role_count_and_room [OF a b c d e f g, of lower_ascii "''t''"] n
  show ?thesis by (simp add: lower_ascii_examples)
qed

section \<open>Sending to a list of users\<close>















end
